theory Spec2Isabelle
  imports Main "HOL-Library.Word" "HOL-Library.Sublist"
begin

section \<open>The AviSynth+ C API dynamic loader (\<^verbatim>\<open>src/avs_c_api_loader.cpp\<close>)\<close>

text \<open>
  The loader is a process-wide singleton: one library handle, one function table, one error
  message, an initialized flag, an atomic reference count and the global accessor
  \<^verbatim>\<open>g_avs_api\<close>. The model is sequential: every call of \<^verbatim>\<open>get_api\<close>,
  \<^verbatim>\<open>cleanup_callback\<close> and \<^verbatim>\<open>get_last_error\<close> runs from start to end on the whole state.

  Three things live outside the source file and are parameters of the model:
  \<^item> the build platform, which selects the library file name (\<^verbatim>\<open>#ifdef _WIN32\<close>,
    \<^verbatim>\<open>__APPLE__\<close>);
  \<^item> the master list \<^verbatim>\<open>avs_c_api_functions.inc\<close> of the \<^verbatim>\<open>FUNC(name)\<close> entries, the
    names of the slots of \<^verbatim>\<open>avisynth_c_api_pointers\<close>: the argument \<open>known\<close>;
  \<^item> the operating system and the host library, which answer the calls the loader makes:
    the record \<open>host\<close>, given anew at every call since the answers may depend on the
    environment handle \<^verbatim>\<open>env\<close>.

  The calls through the table slots \<^verbatim>\<open>avs_check_version\<close>, \<^verbatim>\<open>avs_get_env_property\<close>
  and \<^verbatim>\<open>avs_at_exit\<close> are answered by the host record: \<^verbatim>\<open>load_functions\<close> makes them
  only after it resolved the slots, and \<^verbatim>\<open>get_api\<close> only on an initialized loader, where
  the slots are not null in any state that calls can reach (lemma
  \<open>initialized_has_bootstrap\<close>).
\<close>

subsection \<open>Platform library shim\<close>

datatype platform = Windows | Apple | Other_unix

definition AVS_LIB_NAME :: "platform \<Rightarrow> string" where
  "AVS_LIB_NAME p =
     (case p of Windows \<Rightarrow> ''avisynth.dll''
              | Apple \<Rightarrow> ''libavisynth.dylib''
              | Other_unix \<Rightarrow> ''libavisynth.so'')"

text \<open>A non-null pointer is \<open>Some a\<close>, the null pointer is \<open>None\<close>.\<close>

type_synonym addr = nat

record host =
  open_result :: "addr option"
    \<comment> \<open>what \<^verbatim>\<open>avs_open_library()\<close> returns\<close>
  proc_address :: "string \<Rightarrow> addr option"
    \<comment> \<open>what \<^verbatim>\<open>avs_get_proc_address(handle, name)\<close> returns\<close>
  env_interface_version :: int
    \<comment> \<open>\<^verbatim>\<open>static_cast<int>(avs_get_env_property(env, AVS_AEP_INTERFACE_VERSION))\<close>\<close>
  env_interface_bugfix :: int
    \<comment> \<open>\<^verbatim>\<open>static_cast<int>(avs_get_env_property(env, AVS_AEP_INTERFACE_BUGFIX))\<close>\<close>
  check_version_result :: "int \<Rightarrow> int"
    \<comment> \<open>what \<^verbatim>\<open>avs_check_version(env, version)\<close> returns\<close>

text \<open>
  The calls that reach the operating system or register something with the host are
  recorded, in order, so that opening, closing and resolving can be counted.
\<close>

datatype os_call =
    Open_library "addr option"
  | Close_library addr
  | Get_proc_address string
  | At_exit_registered

subsection \<open>Required names\<close>

text \<open>
  A required name is a \<^verbatim>\<open>std::string_view\<close>. The source reads it in two ways: by its
  characters (the key of the map lookup, the text appended to the internal-error message),
  and through \<^verbatim>\<open>data()\<close> as a C string (the symbol handed to
  \<^verbatim>\<open>load_single_function\<close>), which runs from the start of the view to the first NUL in
  memory and so may go on past the end of the view, or stop inside it. Both readings are
  kept. For a view made from a string literal the two are the same.
\<close>

record string_view =
  sv_chars :: string
    \<comment> \<open>the characters of the view\<close>
  sv_data :: string
    \<comment> \<open>\<^verbatim>\<open>data()\<close> read as a C string\<close>

definition literal_view :: "string \<Rightarrow> string_view" where
  "literal_view name = \<lparr> sv_chars = name, sv_data = name \<rparr>"

subsection \<open>The singleton's state\<close>

text \<open>
  There is exactly one \<^verbatim>\<open>avisynth_c_api_pointers\<close> object, \<^verbatim>\<open>instance_.api_pointers_\<close>;
  a pointer to a table is null or points to it. The table is a map from slot names to
  resolved addresses. \<^verbatim>\<open>ref_count_\<close> is a \<^verbatim>\<open>std::atomic<long>\<close>: a word whose width
  \<open>'w\<close> is left open (32 bits on Windows, 64 on LP64 systems); \<^verbatim>\<open>fetch_add\<close> and
  \<^verbatim>\<open>fetch_sub\<close> wrap. The fields carry the members' names without the trailing underscore,
  which an Isabelle name cannot end with.
\<close>

datatype table_ref = Instance_api_pointers

record 'c loader_state =
  library_handle :: "addr option"
  api_pointers :: "string \<Rightarrow> addr option"
  last_error_message :: string
  initialized :: bool
  ref_count :: 'c
  g_avs_api :: "table_ref option"
  os_calls :: "os_call list"

type_synonym 'w loader = "'w word loader_state"

definition initial :: "'w::len loader" where
  "initial = \<lparr> library_handle = None, api_pointers = Map.empty, last_error_message = [],
               initialized = False, ref_count = 0, g_avs_api = None, os_calls = [] \<rparr>"

text \<open>
  The spec's state \<^verbatim>\<open>UNLOADED\<close>: handle null, table zeroed, reference count 0, and with it
  the initialized flag clear and the shared accessor null.
\<close>

definition UNLOADED :: "'w::len loader \<Rightarrow> bool" where
  "UNLOADED s \<longleftrightarrow>
     library_handle s = None \<and> api_pointers s = Map.empty \<and> \<not> initialized s \<and>
     g_avs_api s = None \<and> ref_count s = 0"

text \<open>The successful opens and the closes in a log of calls.\<close>

fun opens :: "os_call list \<Rightarrow> nat" where
  "opens [] = 0"
| "opens (Open_library (Some a) # cs) = Suc (opens cs)"
| "opens (c # cs) = opens cs"

fun closes :: "os_call list \<Rightarrow> nat" where
  "closes [] = 0"
| "closes (Close_library a # cs) = Suc (closes cs)"
| "closes (c # cs) = closes cs"

subsection \<open>Formatting\<close>

text \<open>\<^verbatim>\<open>%d\<close> of \<^verbatim>\<open>snprintf\<close>: decimal digits, a minus sign for a negative number.\<close>

fun dec_nat :: "nat \<Rightarrow> string" where
  "dec_nat n =
     (if n < 10 then [''0123456789'' ! n]
      else dec_nat (n div 10) @ [''0123456789'' ! (n mod 10)])"

declare dec_nat.simps [simp del]

definition printf_d :: "int \<Rightarrow> string" where
  "printf_d i = (if i < 0 then CHR ''-'' # dec_nat (nat (- i)) else dec_nat (nat i))"

text \<open>
  The two version messages, written by \<^verbatim>\<open>snprintf\<close> into \<^verbatim>\<open>version_error_msg[200]\<close>:
  at most 199 characters are kept.
\<close>

definition version_error_msg :: "bool \<Rightarrow> int \<Rightarrow> int \<Rightarrow> int \<Rightarrow> int \<Rightarrow> string" where
  "version_error_msg have_property_getter req_major req_bugfix host_major host_bugfix =
     take 199
       (if have_property_getter then
          ''Avisynth C API Error: Plugin requires interface >= '' @ printf_d req_major @ ''.'' @
          printf_d req_bugfix @ '', but found '' @ printf_d host_major @ ''.'' @
          printf_d host_bugfix @ ''.''
        else
          ''Avisynth C API Error: Plugin requires interface >= '' @ printf_d req_major @ ''.'' @
          printf_d req_bugfix @ '', but the installed AviSynth+ version is too old.'')"

subsection \<open>Unloading\<close>

definition unload_library :: "'w::len loader \<Rightarrow> 'w loader" where
  "unload_library s =
     (case library_handle s of
        None \<Rightarrow> s
      | Some hdl \<Rightarrow>
          s\<lparr> os_calls := os_calls s @ [Close_library hdl],
             library_handle := None,
             api_pointers := Map.empty,
             initialized := False,
             g_avs_api := None \<rparr>)"

definition cleanup_callback :: "'w::len loader \<Rightarrow> 'w loader" where
  "cleanup_callback s =
     (let old = ref_count s;
          s1 = s\<lparr> ref_count := old - 1 \<rparr>
      in if old = 1 then unload_library s1 else s1)"

subsection \<open>Loading\<close>

text \<open>
  \<^verbatim>\<open>load_single_function(name, ptr_member, required)\<close>: \<open>name\<close> is the symbol looked up
  and reported, \<open>slot\<close> names the member of the table that \<^verbatim>\<open>ptr_member\<close> refers to.
\<close>

definition load_single_function ::
  "host \<Rightarrow> string \<Rightarrow> string \<Rightarrow> bool \<Rightarrow> 'w::len loader \<Rightarrow> bool \<times> 'w loader" where
  "load_single_function h name slot required s =
     (let s1 = s\<lparr> os_calls := os_calls s @ [Get_proc_address name] \<rparr> in
      case proc_address h name of
        Some a \<Rightarrow> (True, s1\<lparr> api_pointers := (api_pointers s1)(slot \<mapsto> a) \<rparr>)
      | None \<Rightarrow>
          (let s2 = s1\<lparr> api_pointers := (api_pointers s1)(slot := None) \<rparr> in
           if required then
             (False, s2\<lparr> last_error_message := ''Failed to load required function: '' @ name \<rparr>)
           else (True, s2)))"

text \<open>
  The version test, the same lambda in \<^verbatim>\<open>load_functions\<close> and in \<^verbatim>\<open>get_api\<close>: the
  verdict and the two version numbers that go into the message. Only comparisons are made
  on the C \<^verbatim>\<open>int\<close>s, so \<open>int\<close> is exact.
\<close>

definition version_check ::
  "host \<Rightarrow> (string \<Rightarrow> addr option) \<Rightarrow> int \<Rightarrow> int \<Rightarrow> bool \<times> int \<times> int" where
  "version_check h table req_major req_bugfix =
     (if table ''avs_get_env_property'' \<noteq> None then
        (let host_major = env_interface_version h;
             host_bugfix = env_interface_bugfix h
         in (if host_major > req_major then True
             else if host_major = req_major then host_bugfix \<ge> req_bugfix
             else False,
             host_major, host_bugfix))
      else (check_version_result h req_major = 0, req_major, 0))"

text \<open>
  The loop over \<^verbatim>\<open>required_names\<close>. The view's characters are looked up in the map
  built from the master list and name the slot; the symbol resolved into that slot is
  \<^verbatim>\<open>req_name_sv.data()\<close>.
\<close>

fun load_required ::
  "host \<Rightarrow> string list \<Rightarrow> string_view list \<Rightarrow> 'w::len loader \<Rightarrow> bool \<times> 'w loader" where
  "load_required h known [] s = (True, s)"
| "load_required h known (req_name_sv # rest) s =
     (if sv_chars req_name_sv \<in> set known then
        (let (ok, s1) =
               load_single_function h (sv_data req_name_sv) (sv_chars req_name_sv) True s in
         if \<not> ok then (False, unload_library s1)
         else load_required h known rest s1)
      else
        (False, unload_library
           (s\<lparr> last_error_message :=
                 ''Internal Error: Unknown function requested as required: '' @
                 sv_chars req_name_sv \<rparr>)))"

text \<open>The second expansion of the master list: every slot still null is tried, optionally.\<close>

fun load_optional :: "host \<Rightarrow> string list \<Rightarrow> 'w::len loader \<Rightarrow> 'w loader" where
  "load_optional h [] s = s"
| "load_optional h (name # rest) s =
     load_optional h rest
       (if api_pointers s name = None then snd (load_single_function h name name False s)
        else s)"

definition load_functions ::
  "platform \<Rightarrow> string list \<Rightarrow> host \<Rightarrow> int \<Rightarrow> int \<Rightarrow> string_view list \<Rightarrow> 'w::len loader
     \<Rightarrow> bool \<times> 'w loader" where
  "load_functions p known h req_major req_bugfix required_names s =
     (let s0 = s\<lparr> os_calls := os_calls s @ [Open_library (open_result h)],
                  library_handle := open_result h \<rparr>
      in
      if library_handle s0 = None then
        (False, s0\<lparr> last_error_message :=
                      ''Failed to load avisynth library ('' @ AVS_LIB_NAME p @
                      ''). Is Avisynth+ installed correctly?'' \<rparr>)
      else
        (let (ok1, s1) = load_single_function h ''avs_check_version'' ''avs_check_version'' True s0;
             (ok2, s2) = load_single_function h ''avs_at_exit'' ''avs_at_exit'' True s1;
             (ok3, s3) = load_single_function h ''avs_get_env_property'' ''avs_get_env_property'' False s2
         in
         if \<not> (ok1 \<and> ok2 \<and> ok3) then (False, unload_library s3)
         else
           (let (version_ok, host_major, host_bugfix) =
                  version_check h (api_pointers s3) req_major req_bugfix
            in
            if \<not> version_ok then
              (False, unload_library
                 (s3\<lparr> last_error_message :=
                        version_error_msg (api_pointers s3 ''avs_get_env_property'' \<noteq> None)
                          req_major req_bugfix host_major host_bugfix \<rparr>))
            else
              (let (ok, s4) = load_required h known required_names s3 in
               if \<not> ok then (False, s4)
               else
                 (let s5 = load_optional h known s4;
                      s6 = s5\<lparr> os_calls := os_calls s5 @ [At_exit_registered] \<rparr>
                  in (True, s6\<lparr> initialized := True, last_error_message := [] \<rparr>))))))"

subsection \<open>The public operations\<close>

definition get_api ::
  "platform \<Rightarrow> string list \<Rightarrow> host \<Rightarrow> int \<Rightarrow> int \<Rightarrow> string_view list \<Rightarrow> 'w::len loader
     \<Rightarrow> table_ref option \<times> 'w loader" where
  "get_api p known h req_major req_bugfix required_function_names s =
     (let old = ref_count s;
          s1 = s\<lparr> ref_count := old + 1 \<rparr>
      in
      if old = 0 then
        (let (ok, s2) = load_functions p known h req_major req_bugfix required_function_names s1 in
         if \<not> ok then (None, s2\<lparr> ref_count := ref_count s2 - 1, g_avs_api := None \<rparr>)
         else (Some Instance_api_pointers, s2\<lparr> g_avs_api := Some Instance_api_pointers \<rparr>))
      else if initialized s1 then
        (let (version_ok, loaded_major, loaded_bugfix) =
               version_check h (api_pointers s1) req_major req_bugfix
         in
         if \<not> version_ok then
           (None, unload_library
              (s1\<lparr> last_error_message :=
                     version_error_msg (api_pointers s1 ''avs_get_env_property'' \<noteq> None)
                       req_major req_bugfix loaded_major loaded_bugfix \<rparr>))
         else (Some Instance_api_pointers, s1\<lparr> g_avs_api := Some Instance_api_pointers \<rparr>))
      else (None, cleanup_callback s1))"

text \<open>
  \<^verbatim>\<open>get_last_error\<close> returns a C string: the characters up to the terminating NUL.
  \<^verbatim>\<open>strncpy\<close> copies at most 299 characters of \<^verbatim>\<open>last_error_message_.c_str()\<close>, stopping
  at its first NUL, into \<^verbatim>\<open>static_error_buffer[300]\<close>, whose last byte is set to NUL.
\<close>

definition fallback_error :: string where
  "fallback_error = ''Unknown Avisynth C API loading error.''"

definition c_str :: "string \<Rightarrow> string" where
  "c_str m = takeWhile (\<lambda>c. c \<noteq> CHR 0x00) m"

definition get_last_error :: "'w::len loader \<Rightarrow> string" where
  "get_last_error s =
     (if last_error_message s \<noteq> [] then take 299 (c_str (last_error_message s))
      else fallback_error)"

subsection \<open>Named parts of the load sequence\<close>

text \<open>
  \<^verbatim>\<open>load_functions\<close> above is one function, as in the source. Two of its parts get a name,
  so that theorems can speak about them; lemma \<open>load_functions_opened\<close> proves that
  \<^verbatim>\<open>load_functions\<close> is composed of them. \<open>after_essentials\<close> is the state after the
  library was opened and the three bootstrap symbols were looked up (source lines 80 and
  97 to 99); \<open>resolve_and_register\<close> is the rest of the sequence once the version test
  has passed (source lines 150 to 197): required names, optional names, registration of
  the teardown callback, initialized flag, clearing of the message.
\<close>

definition after_essentials :: "host \<Rightarrow> 'w::len loader \<Rightarrow> 'w loader" where
  "after_essentials h s =
     snd (load_single_function h ''avs_get_env_property'' ''avs_get_env_property'' False
       (snd (load_single_function h ''avs_at_exit'' ''avs_at_exit'' True
         (snd (load_single_function h ''avs_check_version'' ''avs_check_version'' True
           (s\<lparr> os_calls := os_calls s @ [Open_library (open_result h)],
               library_handle := open_result h \<rparr>))))))"

definition resolve_and_register ::
  "host \<Rightarrow> string list \<Rightarrow> string_view list \<Rightarrow> 'w::len loader \<Rightarrow> bool \<times> 'w loader" where
  "resolve_and_register h known required_names s3 =
     (let (ok, s4) = load_required h known required_names s3 in
      if \<not> ok then (False, s4)
      else
        (let s5 = load_optional h known s4;
             s6 = s5\<lparr> os_calls := os_calls s5 @ [At_exit_registered] \<rparr>
         in (True, s6\<lparr> initialized := True, last_error_message := [] \<rparr>)))"

text \<open>Library handles a log of calls leaves open: successful opens minus closes.\<close>

definition held_open :: "os_call list \<Rightarrow> int" where
  "held_open cs = int (opens cs) - int (closes cs)"

subsection \<open>Sequences of calls\<close>

text \<open>
  A request is one call of \<^verbatim>\<open>get_api\<close>: the host's answers for its environment, the
  required major and bugfix versions and the required names. \<open>get_api_all\<close> makes the
  calls in order and tells whether every one of them returned the table.
\<close>

type_synonym request = "host \<times> int \<times> int \<times> string_view list"

fun get_api_all ::
  "platform \<Rightarrow> string list \<Rightarrow> request list \<Rightarrow> 'w::len loader \<Rightarrow> bool \<times> 'w loader" where
  "get_api_all p known [] s = (True, s)"
| "get_api_all p known ((h, req_major, req_bugfix, names) # rest) s =
     (let (r, s1) = get_api p known h req_major req_bugfix names s;
          (ok, s2) = get_api_all p known rest s1
      in (r \<noteq> None \<and> ok, s2))"

text \<open>
  An event is a call of \<^verbatim>\<open>get_api\<close> by some plugin or a call of the teardown callback by
  the host; \<open>run\<close> plays a list of events, first to last.
\<close>

datatype event = Get_api host int int "string_view list" | Teardown

fun step :: "platform \<Rightarrow> string list \<Rightarrow> event \<Rightarrow> 'w::len loader \<Rightarrow> 'w loader" where
  "step p known (Get_api h req_major req_bugfix names) s =
     snd (get_api p known h req_major req_bugfix names s)"
| "step p known Teardown s = cleanup_callback s"

fun run :: "platform \<Rightarrow> string list \<Rightarrow> event list \<Rightarrow> 'w::len loader \<Rightarrow> 'w loader" where
  "run p known [] s = s"
| "run p known (e # es) s = run p known es (step p known e s)"

subsection \<open>Invariants\<close>

text \<open>
  A state is settled when the library is loaded or everything that unloading clears is
  clear.
\<close>

definition settled :: "'w::len loader \<Rightarrow> bool" where
  "settled s \<longleftrightarrow>
     library_handle s \<noteq> None \<or>
     library_handle s = None \<and> api_pointers s = Map.empty \<and> \<not> initialized s \<and> g_avs_api s = None"

text \<open>
  The invariant of the loader after \<open>k\<close> calls. While it is initialized, no error message
  is recorded, the library is open, the count is neither 0 nor above \<open>k\<close>, and the two
  bootstrap slots that are called through are not null. While it is not initialized, the
  handle is null, the table is zeroed and the shared accessor is null.
\<close>

definition loader_invariant :: "nat \<Rightarrow> 'w::len loader \<Rightarrow> bool" where
  "loader_invariant k s \<longleftrightarrow>
     (initialized s \<longrightarrow>
        last_error_message s = [] \<and> library_handle s \<noteq> None \<and> ref_count s \<noteq> 0 \<and>
        unat (ref_count s) \<le> k \<and>
        api_pointers s ''avs_check_version'' \<noteq> None \<and>
        api_pointers s ''avs_at_exit'' \<noteq> None) \<and>
     (\<not> initialized s \<longrightarrow>
        library_handle s = None \<and> api_pointers s = Map.empty \<and> g_avs_api s = None)"

subsection \<open>Example hosts\<close>

text \<open>
  A short master list and three hosts for the concrete runs below: a host at interface
  10.0 that exports the three bootstrap symbols and \<^verbatim>\<open>avs_get_frame\<close>; an older host
  without the property getter (its two version fields are never read), whose
  \<^verbatim>\<open>avs_check_version\<close> accepts versions up to 10; and a machine on which the library
  cannot be opened.
\<close>

definition known_example :: "string list" where
  "known_example =
     [''avs_check_version'', ''avs_at_exit'', ''avs_get_env_property'', ''avs_get_frame'',
      ''avs_release_clip'']"

definition host_10_0 :: host where
  "host_10_0 =
     \<lparr> open_result = Some 7,
       proc_address = map_of [(''avs_check_version'', 1), (''avs_at_exit'', 2),
                              (''avs_get_env_property'', 3), (''avs_get_frame'', 4)],
       env_interface_version = 10,
       env_interface_bugfix = 0,
       check_version_result = (\<lambda>v. if v \<le> 10 then 0 else - 1) \<rparr>"

definition host_old :: host where
  "host_old =
     \<lparr> open_result = Some 7,
       proc_address = map_of [(''avs_check_version'', 1), (''avs_at_exit'', 2),
                              (''avs_get_frame'', 4)],
       env_interface_version = 0,
       env_interface_bugfix = 0,
       check_version_result = (\<lambda>v. if v \<le> 10 then 0 else - 1) \<rparr>"

definition host_no_library :: host where
  "host_no_library = host_10_0 \<lparr> open_result := None \<rparr>"

text \<open>
  A view of the first 13 characters of the string \<^verbatim>\<open>avs_get_frameXYZ\<close>, as
  \<^verbatim>\<open>std::string_view("avs_get_frameXYZ", 13)\<close> makes it: its characters are a name of the
  master list, \<^verbatim>\<open>data()\<close> is the whole string.
\<close>

definition cut_view :: string_view where
  "cut_view = \<lparr> sv_chars = ''avs_get_frame'', sv_data = ''avs_get_frameXYZ'' \<rparr>"

text \<open>
  Two states of the example: after a first successful call that requires 10.0, and after a
  second call on that state that requires 11.0.
\<close>

definition loaded_example :: "64 loader" where
  "loaded_example =
     snd (get_api Other_unix known_example host_10_0 10 0 [literal_view ''avs_get_frame''] initial)"

definition after_stricter_call :: "64 loader" where
  "after_stricter_call =
     snd (get_api Other_unix known_example host_10_0 11 0 [literal_view ''avs_get_frame''] loaded_example)"

text \<open>The state after a first call on a machine where the library cannot be opened.\<close>

definition after_failed_call :: "64 loader" where
  "after_failed_call =
     run Windows known_example [Get_api host_no_library 10 0 [literal_view ''avs_get_frame'']] initial"

section \<open>Properties\<close>

subsection \<open>The parts of the load sequence\<close>

lemma opens_append: "opens (xs @ ys) = opens xs + opens ys"
  by (induction xs rule: opens.induct) simp_all

lemma closes_append: "closes (xs @ ys) = closes xs + closes ys"
  by (induction xs rule: closes.induct) simp_all

lemma unload_library_handle: "library_handle (unload_library s) = None"
  by (simp add: unload_library_def split: option.splits)

lemma unload_library_frame:
  "ref_count (unload_library s) = ref_count s"
  "last_error_message (unload_library s) = last_error_message s"
  by (simp_all add: unload_library_def split: option.splits)

lemma unload_library_open:
  "library_handle s = Some a \<Longrightarrow>
     api_pointers (unload_library s) = Map.empty \<and> \<not> initialized (unload_library s) \<and>
     g_avs_api (unload_library s) = None \<and>
     os_calls (unload_library s) = os_calls s @ [Close_library a]"
  by (simp add: unload_library_def)

lemma unload_library_closed: "library_handle s = None \<Longrightarrow> unload_library s = s"
  by (simp add: unload_library_def)

lemma lsf_frame:
  "library_handle (snd (load_single_function h n sl r s)) = library_handle s"
  "initialized (snd (load_single_function h n sl r s)) = initialized s"
  "ref_count (snd (load_single_function h n sl r s)) = ref_count s"
  "g_avs_api (snd (load_single_function h n sl r s)) = g_avs_api s"
  "os_calls (snd (load_single_function h n sl r s)) = os_calls s @ [Get_proc_address n]"
  by (simp_all add: load_single_function_def Let_def split: option.splits)

lemma lsf_table:
  "api_pointers (snd (load_single_function h n sl r s)) = (api_pointers s)(sl := proc_address h n)"
  by (auto simp: load_single_function_def Let_def split: option.splits)

lemma lsf_ok: "fst (load_single_function h n sl r s) \<longleftrightarrow> proc_address h n \<noteq> None \<or> \<not> r"
  by (simp add: load_single_function_def Let_def split: option.splits)

lemma lsf_message:
  "last_error_message (snd (load_single_function h n sl r s)) =
     (if proc_address h n = None \<and> r then ''Failed to load required function: '' @ n
      else last_error_message s)"
  by (simp add: load_single_function_def Let_def split: option.splits)

lemmas lsf_simps = lsf_frame lsf_table lsf_ok lsf_message

lemma load_optional_frame:
  "library_handle (load_optional h ns s) = library_handle s \<and>
   initialized (load_optional h ns s) = initialized s \<and>
   ref_count (load_optional h ns s) = ref_count s \<and>
   g_avs_api (load_optional h ns s) = g_avs_api s \<and>
   last_error_message (load_optional h ns s) = last_error_message s \<and>
   opens (os_calls (load_optional h ns s)) = opens (os_calls s) \<and>
   closes (os_calls (load_optional h ns s)) = closes (os_calls s)"
  by (induction ns arbitrary: s) (simp_all add: lsf_simps opens_append closes_append)

lemma load_required_ok:
  "fst (load_required h known ns s) \<Longrightarrow>
   library_handle (snd (load_required h known ns s)) = library_handle s \<and>
   initialized (snd (load_required h known ns s)) = initialized s \<and>
   ref_count (snd (load_required h known ns s)) = ref_count s \<and>
   g_avs_api (snd (load_required h known ns s)) = g_avs_api s \<and>
   last_error_message (snd (load_required h known ns s)) = last_error_message s \<and>
   opens (os_calls (snd (load_required h known ns s))) = opens (os_calls s) \<and>
   closes (os_calls (snd (load_required h known ns s))) = closes (os_calls s)"
proof (induction ns arbitrary: s)
  case Nil
  then show ?case by simp
next
  case (Cons n ns)
  let ?s1 = "snd (load_single_function h (sv_data n) (sv_chars n) True s)"
  from Cons.prems have k: "sv_chars n \<in> set known" and r: "proc_address h (sv_data n) \<noteq> None"
    and rest: "fst (load_required h known ns ?s1)"
    by (auto simp: case_prod_beta lsf_simps split: if_splits)
  have eq: "load_required h known (n # ns) s = load_required h known ns ?s1"
    using k r by (simp add: case_prod_beta lsf_simps)
  show ?case
    unfolding eq using Cons.IH [OF rest] r
    by (simp add: lsf_simps opens_append closes_append)
qed

lemma load_required_fail:
  "\<not> fst (load_required h known ns s) \<Longrightarrow> library_handle s = Some a \<Longrightarrow>
   library_handle (snd (load_required h known ns s)) = None \<and>
   api_pointers (snd (load_required h known ns s)) = Map.empty \<and>
   \<not> initialized (snd (load_required h known ns s)) \<and>
   ref_count (snd (load_required h known ns s)) = ref_count s \<and>
   g_avs_api (snd (load_required h known ns s)) = None \<and>
   opens (os_calls (snd (load_required h known ns s))) = opens (os_calls s) \<and>
   closes (os_calls (snd (load_required h known ns s))) = Suc (closes (os_calls s))"
proof (induction ns arbitrary: s)
  case Nil
  then show ?case by simp
next
  case (Cons n ns)
  let ?s1 = "snd (load_single_function h (sv_data n) (sv_chars n) True s)"
  show ?case
  proof (cases "sv_chars n \<in> set known \<and> proc_address h (sv_data n) \<noteq> None")
    case True
    then have eq: "load_required h known (n # ns) s = load_required h known ns ?s1"
      by (simp add: case_prod_beta lsf_simps)
    have "\<not> fst (load_required h known ns ?s1)" using Cons.prems(1) eq by simp
    moreover have "library_handle ?s1 = Some a" using Cons.prems(2) by (simp add: lsf_simps)
    ultimately show ?thesis
      unfolding eq using Cons.IH [of ?s1] by (simp add: lsf_simps opens_append closes_append)
  next
    case False
    then show ?thesis
      using Cons.prems(2)
      by (auto simp: case_prod_beta lsf_simps unload_library_def opens_append closes_append)
  qed
qed


lemma load_functions_not_found:
  "open_result h = None \<Longrightarrow>
   load_functions p known h rm rb ns s =
     (False, s\<lparr> os_calls := os_calls s @ [Open_library None], library_handle := None,
                last_error_message := ''Failed to load avisynth library ('' @ AVS_LIB_NAME p @
                      ''). Is Avisynth+ installed correctly?'' \<rparr>)"
  by (simp add: load_functions_def Let_def)

lemma after_essentials_frame:
  "library_handle (after_essentials h s) = open_result h"
  "initialized (after_essentials h s) = initialized s"
  "ref_count (after_essentials h s) = ref_count s"
  "g_avs_api (after_essentials h s) = g_avs_api s"
  "opens (os_calls (after_essentials h s)) =
     opens (os_calls s) + (if open_result h = None then 0 else 1)"
  "closes (os_calls (after_essentials h s)) = closes (os_calls s)"
  by (auto simp: after_essentials_def lsf_simps opens_append closes_append)

lemma after_essentials_table:
  "api_pointers (after_essentials h s) ''avs_get_env_property'' = proc_address h ''avs_get_env_property''"
  "api_pointers (after_essentials h s) ''avs_check_version'' = proc_address h ''avs_check_version''"
  "api_pointers (after_essentials h s) ''avs_at_exit'' = proc_address h ''avs_at_exit''"
  by (simp_all add: after_essentials_def lsf_simps)


lemma version_check_table:
  "t ''avs_get_env_property'' = t' ''avs_get_env_property'' \<Longrightarrow>
   version_check h t rm rb = version_check h t' rm rb"
  by (simp add: version_check_def)

lemma version_check_verdict:
  "fst (version_check h t rm rb) \<longleftrightarrow>
     (if t ''avs_get_env_property'' \<noteq> None
      then env_interface_version h > rm \<or>
           env_interface_version h = rm \<and> env_interface_bugfix h \<ge> rb
      else check_version_result h rm = 0)"
  by (auto simp: version_check_def Let_def)

lemma version_check_numbers:
  "snd (version_check h t rm rb) =
     (if t ''avs_get_env_property'' \<noteq> None
      then (env_interface_version h, env_interface_bugfix h) else (rm, 0))"
  by (simp add: version_check_def Let_def)

lemma load_functions_opened:
  "open_result h = Some a \<Longrightarrow>
   load_functions p known h rm rb ns s =
     (let s3 = after_essentials h s in
      if proc_address h ''avs_check_version'' = None \<or> proc_address h ''avs_at_exit'' = None
      then (False, unload_library s3)
      else if \<not> fst (version_check h (proc_address h) rm rb) then
        (False, unload_library
           (s3\<lparr> last_error_message :=
                  version_error_msg (proc_address h ''avs_get_env_property'' \<noteq> None) rm rb
                    (fst (snd (version_check h (proc_address h) rm rb)))
                    (snd (snd (version_check h (proc_address h) rm rb))) \<rparr>))
      else resolve_and_register h known ns s3)"
proof -
  have vc: "version_check h (api_pointers (after_essentials h s)) rm rb =
            version_check h (proc_address h) rm rb"
    by (rule version_check_table) (simp add: after_essentials_table)
  assume op: "open_result h = Some a"
  have ae: "snd (load_single_function h ''avs_get_env_property'' ''avs_get_env_property'' False
              (snd (load_single_function h ''avs_at_exit'' ''avs_at_exit'' True
                (snd (load_single_function h ''avs_check_version'' ''avs_check_version'' True
                  (s\<lparr> os_calls := os_calls s @ [Open_library (Some a)],
                      library_handle := Some a \<rparr>)))))) = after_essentials h s"
    by (simp add: after_essentials_def op)
  show ?thesis
    unfolding load_functions_def resolve_and_register_def Let_def case_prod_beta
    by (simp add: op lsf_ok ae vc after_essentials_table del: not_None_eq)
qed

lemma resolve_and_register_ok:
  "fst (resolve_and_register h known ns s) \<Longrightarrow>
   initialized (snd (resolve_and_register h known ns s)) \<and>
   last_error_message (snd (resolve_and_register h known ns s)) = [] \<and>
   library_handle (snd (resolve_and_register h known ns s)) = library_handle s \<and>
   ref_count (snd (resolve_and_register h known ns s)) = ref_count s \<and>
   g_avs_api (snd (resolve_and_register h known ns s)) = g_avs_api s \<and>
   opens (os_calls (snd (resolve_and_register h known ns s))) = opens (os_calls s) \<and>
   closes (os_calls (snd (resolve_and_register h known ns s))) = closes (os_calls s)"
proof -
  assume "fst (resolve_and_register h known ns s)"
  then have ok: "fst (load_required h known ns s)"
    by (simp add: resolve_and_register_def case_prod_beta Let_def split: if_splits)
  show ?thesis
    using ok load_required_ok [OF ok]
      load_optional_frame [of h known "snd (load_required h known ns s)"]
    by (simp add: resolve_and_register_def case_prod_beta Let_def opens_append closes_append)
qed

lemma resolve_and_register_fail:
  "\<not> fst (resolve_and_register h known ns s) \<Longrightarrow> library_handle s = Some a \<Longrightarrow>
   library_handle (snd (resolve_and_register h known ns s)) = None \<and>
   api_pointers (snd (resolve_and_register h known ns s)) = Map.empty \<and>
   \<not> initialized (snd (resolve_and_register h known ns s)) \<and>
   ref_count (snd (resolve_and_register h known ns s)) = ref_count s \<and>
   g_avs_api (snd (resolve_and_register h known ns s)) = None \<and>
   opens (os_calls (snd (resolve_and_register h known ns s))) = opens (os_calls s) \<and>
   closes (os_calls (snd (resolve_and_register h known ns s))) = Suc (closes (os_calls s))"
proof -
  assume f: "\<not> fst (resolve_and_register h known ns s)" and hd: "library_handle s = Some a"
  from f have nok: "\<not> fst (load_required h known ns s)"
    by (simp add: resolve_and_register_def case_prod_beta Let_def split: if_splits)
  then have eq: "snd (resolve_and_register h known ns s) = snd (load_required h known ns s)"
    by (simp add: resolve_and_register_def case_prod_beta Let_def)
  show ?thesis unfolding eq by (rule load_required_fail [OF nok hd])
qed

text \<open>Failure of the load sequence, whatever the cause.\<close>

lemma load_functions_fail:
  assumes "\<not> fst (load_functions p known h rm rb ns s)"
  shows "library_handle (snd (load_functions p known h rm rb ns s)) = None \<and>
         ref_count (snd (load_functions p known h rm rb ns s)) = ref_count s \<and>
         held_open (os_calls (snd (load_functions p known h rm rb ns s))) = held_open (os_calls s) \<and>
         (api_pointers s = Map.empty \<and> \<not> initialized s \<longrightarrow>
            api_pointers (snd (load_functions p known h rm rb ns s)) = Map.empty \<and>
            \<not> initialized (snd (load_functions p known h rm rb ns s)))"
proof (cases "open_result h")
  case None
  then show ?thesis
    by (simp add: load_functions_not_found held_open_def opens_append closes_append)
next
  case (Some a)
  let ?s3 = "after_essentials h s"
  have h3: "library_handle ?s3 = Some a" by (simp add: after_essentials_frame Some)
  note ae = after_essentials_frame [of h s]
  show ?thesis
  proof (cases "proc_address h ''avs_check_version'' = None \<or> proc_address h ''avs_at_exit'' = None")
    case True
    then have eq: "load_functions p known h rm rb ns s = (False, unload_library ?s3)"
      by (simp add: load_functions_opened [OF Some] Let_def)
    show ?thesis unfolding eq
      using h3 ae Some by (simp add: unload_library_def held_open_def opens_append closes_append)
  next
    case ess: False
    show ?thesis
    proof (cases "fst (version_check h (proc_address h) rm rb)")
      case False
      with ess show ?thesis
        using h3 ae Some
        by (auto simp: load_functions_opened [OF Some] Let_def unload_library_def held_open_def
                 opens_append closes_append)
    next
      case True
      with ess have eq: "load_functions p known h rm rb ns s = resolve_and_register h known ns ?s3"
        by (auto simp: load_functions_opened [OF Some] Let_def)
      from assms have "\<not> fst (resolve_and_register h known ns ?s3)" by (simp add: eq)
      from resolve_and_register_fail [OF this h3] show ?thesis
        unfolding eq using ae Some by (simp add: held_open_def)
    qed
  qed
qed

lemma load_functions_ok:
  assumes "fst (load_functions p known h rm rb ns s)"
  shows "initialized (snd (load_functions p known h rm rb ns s)) \<and>
         last_error_message (snd (load_functions p known h rm rb ns s)) = [] \<and>
         library_handle (snd (load_functions p known h rm rb ns s)) = open_result h \<and>
         open_result h \<noteq> None \<and>
         ref_count (snd (load_functions p known h rm rb ns s)) = ref_count s \<and>
         g_avs_api (snd (load_functions p known h rm rb ns s)) = g_avs_api s \<and>
         opens (os_calls (snd (load_functions p known h rm rb ns s))) = Suc (opens (os_calls s)) \<and>
         closes (os_calls (snd (load_functions p known h rm rb ns s))) = closes (os_calls s)"
proof (cases "open_result h")
  case None
  with assms show ?thesis by (simp add: load_functions_not_found)
next
  case (Some a)
  let ?s3 = "after_essentials h s"
  from assms have eq: "load_functions p known h rm rb ns s = resolve_and_register h known ns ?s3"
    by (simp add: load_functions_opened [OF Some] Let_def split: if_splits)
  from assms have "fst (resolve_and_register h known ns ?s3)" by (simp add: eq)
  from resolve_and_register_ok [OF this] show ?thesis
    unfolding eq using Some by (simp add: after_essentials_frame)
qed

subsection \<open>The three branches of \<^verbatim>\<open>get_api\<close>\<close>

lemma get_api_first:
  "ref_count s = 0 \<Longrightarrow>
   get_api p known h rm rb ns s =
     (if fst (load_functions p known h rm rb ns (s\<lparr> ref_count := 1 \<rparr>))
      then (Some Instance_api_pointers,
            (snd (load_functions p known h rm rb ns (s\<lparr> ref_count := 1 \<rparr>)))
              \<lparr> g_avs_api := Some Instance_api_pointers \<rparr>)
      else (None,
            (snd (load_functions p known h rm rb ns (s\<lparr> ref_count := 1 \<rparr>)))
              \<lparr> ref_count := 0, g_avs_api := None \<rparr>))"
  using load_functions_fail [of p known h rm rb ns "s\<lparr> ref_count := 1 \<rparr>"]
  by (simp add: get_api_def Let_def case_prod_beta)

lemma get_api_recheck_ok:
  "ref_count s \<noteq> 0 \<Longrightarrow> initialized s \<Longrightarrow> fst (version_check h (api_pointers s) rm rb) \<Longrightarrow>
   get_api p known h rm rb ns s =
     (Some Instance_api_pointers,
      s\<lparr> ref_count := ref_count s + 1, g_avs_api := Some Instance_api_pointers \<rparr>)"
  by (simp add: get_api_def Let_def case_prod_beta)

lemma get_api_recheck_fail:
  "ref_count s \<noteq> 0 \<Longrightarrow> initialized s \<Longrightarrow> \<not> fst (version_check h (api_pointers s) rm rb) \<Longrightarrow>
   get_api p known h rm rb ns s =
     (None, unload_library
        (s\<lparr> ref_count := ref_count s + 1,
            last_error_message :=
              version_error_msg (api_pointers s ''avs_get_env_property'' \<noteq> None) rm rb
                (fst (snd (version_check h (api_pointers s) rm rb)))
                (snd (snd (version_check h (api_pointers s) rm rb))) \<rparr>))"
  by (simp add: get_api_def Let_def case_prod_beta)

lemma get_api_not_initialized:
  "ref_count s \<noteq> 0 \<Longrightarrow> \<not> initialized s \<Longrightarrow> get_api p known h rm rb ns s = (None, s)"
  by (simp add: get_api_def Let_def cleanup_callback_def)

subsection \<open>Runs of the example\<close>

lemmas example_defs =
  known_example_def host_10_0_def host_old_def host_no_library_def initial_def literal_view_def

lemmas run_defs =
  get_api_def load_functions_def load_single_function_def version_check_def
  version_error_msg_def unload_library_def cleanup_callback_def Let_def printf_d_def
  dec_nat.simps

lemma first_call_example:
  "fst (get_api Other_unix known_example host_10_0 10 0 [literal_view ''avs_get_frame''] (initial :: 64 loader))
     = Some Instance_api_pointers"
  by (simp add: run_defs example_defs)

lemma loaded_example_fields:
  "library_handle loaded_example = Some 7"
  "initialized loaded_example"
  "ref_count loaded_example = 1"
  "g_avs_api loaded_example = Some Instance_api_pointers"
  "last_error_message loaded_example = []"
  "api_pointers loaded_example ''avs_get_env_property'' = Some 3"
  "os_calls loaded_example =
     [Open_library (Some 7), Get_proc_address ''avs_check_version'',
      Get_proc_address ''avs_at_exit'', Get_proc_address ''avs_get_env_property'',
      Get_proc_address ''avs_get_frame'', Get_proc_address ''avs_release_clip'',
      At_exit_registered]"
  by (simp_all add: loaded_example_def run_defs example_defs)

text \<open>
  A view that stops short of its string's end: the slot is found by the view, the symbol
  looked up and reported is the whole string, and the load fails on it, also when an
  unknown name follows.
\<close>

lemma cut_view_example:
  "get_api Other_unix known_example host_10_0 10 0 [literal_view ''avs_get_frame'']
     (initial :: 64 loader) \<noteq>
   get_api Other_unix known_example host_10_0 10 0 [cut_view] (initial :: 64 loader)"
  "fst (get_api Other_unix known_example host_10_0 10 0 [cut_view] (initial :: 64 loader))
     = None"
  "last_error_message
     (snd (get_api Other_unix known_example host_10_0 10 0 [cut_view] (initial :: 64 loader)))
     = ''Failed to load required function: avs_get_frameXYZ''"
  "last_error_message
     (snd (get_api Other_unix known_example host_10_0 10 0
             [cut_view, literal_view ''avs_totally_made_up''] (initial :: 64 loader)))
     = ''Failed to load required function: avs_get_frameXYZ''"
  by (simp_all add: run_defs example_defs cut_view_def)

lemma after_stricter_call_eq:
  "get_api Other_unix known_example host_10_0 11 0 [literal_view ''avs_get_frame''] loaded_example =
     (None, after_stricter_call)"
  "after_stricter_call =
     unload_library
       (loaded_example
          \<lparr> ref_count := 2,
            last_error_message :=
              ''Avisynth C API Error: Plugin requires interface >= 11.0, but found 10.0.'' \<rparr>)"
proof -
  have nv: "\<not> fst (version_check host_10_0 (api_pointers loaded_example) 11 0)"
    by (simp add: version_check_verdict loaded_example_fields host_10_0_def)
  have vn: "snd (version_check host_10_0 (api_pointers loaded_example) 11 0) = (10, 0)"
    by (simp add: version_check_numbers loaded_example_fields host_10_0_def)
  have msg: "version_error_msg True 11 0 10 0 =
      ''Avisynth C API Error: Plugin requires interface >= 11.0, but found 10.0.''"
    by (simp add: version_error_msg_def printf_d_def dec_nat.simps)
  have r: "get_api Other_unix known_example host_10_0 11 0 [literal_view ''avs_get_frame''] loaded_example =
     (None, unload_library
       (loaded_example
          \<lparr> ref_count := 2,
            last_error_message :=
              ''Avisynth C API Error: Plugin requires interface >= 11.0, but found 10.0.'' \<rparr>))"
    using get_api_recheck_fail
      [where s = loaded_example and h = host_10_0 and rm = 11 and rb = 0, OF _ _ nv]
    by (simp add: loaded_example_fields vn msg)
  show "get_api Other_unix known_example host_10_0 11 0 [literal_view ''avs_get_frame''] loaded_example =
     (None, after_stricter_call)"
    by (simp add: after_stricter_call_def r)
  show "after_stricter_call =
     unload_library
       (loaded_example
          \<lparr> ref_count := 2,
            last_error_message :=
              ''Avisynth C API Error: Plugin requires interface >= 11.0, but found 10.0.'' \<rparr>)"
    by (simp add: after_stricter_call_def r)
qed

lemma after_stricter_call_fields:
  "library_handle after_stricter_call = None"
  "api_pointers after_stricter_call = Map.empty"
  "\<not> initialized after_stricter_call"
  "g_avs_api after_stricter_call = None"
  "ref_count after_stricter_call = 2"
  "last_error_message after_stricter_call =
     ''Avisynth C API Error: Plugin requires interface >= 11.0, but found 10.0.''"
  by (simp_all add: after_stricter_call_eq(2) unload_library_def loaded_example_fields)

subsection \<open>A later caller meets a loader that is not initialized\<close>

text \<open>
  Claim C8. A call of \<^verbatim>\<open>get_api\<close> that finds the reference count different from 0
  before its increment (a count above 0 in particular) and the singleton not initialized
  gives back the reference it took and returns null. Nothing else happens: the state after
  the call is the state before it, so the count is the one before the call, the library was
  not opened and no symbol was looked up.
\<close>

theorem get_api_backs_off_when_not_initialized:
  assumes "ref_count s \<noteq> 0" and "\<not> initialized s"
  shows "get_api p known h req_major req_bugfix names s = (None, s)"
  using assms by (rule get_api_not_initialized)

theorem get_api_backs_off_when_not_initialized_witness:
  "ref_count after_stricter_call \<noteq> 0 \<and>
   \<not> initialized after_stricter_call \<and>
   get_api Other_unix known_example host_10_0 10 0 [literal_view ''avs_get_frame''] after_stricter_call
     = (None, after_stricter_call)"
  using get_api_backs_off_when_not_initialized
    [of after_stricter_call Other_unix known_example host_10_0 10 0 "[literal_view ''avs_get_frame'']"]
  by (simp add: after_stricter_call_fields)

subsection \<open>The error string\<close>

lemma c_str_no_nul: "CHR 0x00 \<notin> set (c_str m)"
  unfolding c_str_def by (induction m) auto

lemma c_str_prefix: "prefix (c_str m) m"
  unfolding c_str_def by (metis prefixI takeWhile_dropWhile_id)

text \<open>
  Claim C9. \<^verbatim>\<open>get_last_error\<close> returns a C string of at most 299 characters (the
  300-byte static buffer less its terminator, or the shorter literal), with no NUL inside.
  With no message recorded it is the fixed fallback string. Otherwise it is the recorded
  message, cut at 299 characters (and at a NUL, should the message hold one): a prefix of
  the message, and the whole message when that fits.
\<close>

theorem get_last_error_bounded:
  "length (get_last_error s) \<le> 299 \<and>
   CHR 0x00 \<notin> set (get_last_error s) \<and>
   (last_error_message s = [] \<longrightarrow> get_last_error s = fallback_error) \<and>
   (last_error_message s \<noteq> [] \<longrightarrow>
      get_last_error s = take 299 (c_str (last_error_message s)) \<and>
      prefix (get_last_error s) (last_error_message s)) \<and>
   (last_error_message s \<noteq> [] \<and> CHR 0x00 \<notin> set (last_error_message s) \<and>
    length (last_error_message s) \<le> 299 \<longrightarrow> get_last_error s = last_error_message s)"
proof -
  have nul: "CHR 0x00 \<notin> set (take 299 (c_str m))" for m
    using c_str_no_nul [of m] by (auto dest: in_set_takeD)
  have pre: "prefix (take 299 (c_str m)) m" for m
    by (meson c_str_prefix prefix_order.order_trans take_is_prefix)
  have full: "CHR 0x00 \<notin> set m \<Longrightarrow> c_str m = m" for m
    unfolding c_str_def by (induction m) auto
  show ?thesis
    using nul pre full by (simp add: get_last_error_def fallback_error_def)
qed

theorem get_last_error_bounded_witness:
  "last_error_message (initial :: 64 loader) = [] \<and>
   get_last_error (initial :: 64 loader) = ''Unknown Avisynth C API loading error.'' \<and>
   last_error_message (initial \<lparr> last_error_message := ''Failed to load required function: avs_at_exit'' \<rparr> :: 64 loader) \<noteq> [] \<and>
   get_last_error (initial \<lparr> last_error_message := ''Failed to load required function: avs_at_exit'' \<rparr> :: 64 loader)
     = ''Failed to load required function: avs_at_exit''"
  using get_last_error_bounded [of "initial :: 64 loader"]
    get_last_error_bounded
      [of "initial \<lparr> last_error_message := ''Failed to load required function: avs_at_exit'' \<rparr> :: 64 loader"]
  by (simp add: initial_def fallback_error_def c_str_def)

subsection \<open>Version negotiation in the load sequence\<close>

lemma load_required_iff:
  "fst (load_required h known ns s) \<longleftrightarrow>
     (\<forall>n\<in>set ns. sv_chars n \<in> set known \<and> proc_address h (sv_data n) \<noteq> None)"
  by (induction ns arbitrary: s) (auto simp: case_prod_beta lsf_ok)

lemma resolve_and_register_iff:
  "fst (resolve_and_register h known ns s) \<longleftrightarrow>
     (\<forall>n\<in>set ns. sv_chars n \<in> set known \<and> proc_address h (sv_data n) \<noteq> None)"
  using load_required_iff [of h known ns s]
  by (simp add: resolve_and_register_def case_prod_beta Let_def del: not_None_eq)

lemma load_required_unknown:
  "\<forall>m\<in>set pre. sv_chars m \<in> set known \<and> proc_address h (sv_data m) \<noteq> None \<Longrightarrow>
   sv_chars n \<notin> set known \<Longrightarrow>
   last_error_message (snd (load_required h known (pre @ n # post) s)) =
     ''Internal Error: Unknown function requested as required: '' @ sv_chars n"
  by (induction pre arbitrary: s) (auto simp: case_prod_beta lsf_ok unload_library_frame)

text \<open>
  Claim C3. Take a load in which the library opens and both required bootstrap symbols
  resolve, so that the version test is reached. The test made there passes exactly when:
  with the property getter resolved, the host's major version is above the required one,
  or equal to it with a bugfix version at least the required one; without the getter,
  \<^verbatim>\<open>avs_check_version\<close> called with the required major version returns zero. When it
  passes, the load goes on with the required names. When it fails, the load fails, the
  library is unloaded and the message names the required and the found version if the
  getter was there, and only the required version, calling the installed one too old, if
  it was not.
\<close>

theorem version_negotiation:
  assumes "open_result h = Some a"
    and "proc_address h ''avs_check_version'' \<noteq> None"
    and "proc_address h ''avs_at_exit'' \<noteq> None"
  shows
    "(fst (version_check h (api_pointers (after_essentials h s)) req_major req_bugfix) \<longleftrightarrow>
        (if proc_address h ''avs_get_env_property'' \<noteq> None
         then env_interface_version h > req_major \<or>
              env_interface_version h = req_major \<and> env_interface_bugfix h \<ge> req_bugfix
         else check_version_result h req_major = 0)) \<and>
     (proc_address h ''avs_get_env_property'' \<noteq> None \<and>
      (env_interface_version h > req_major \<or>
       env_interface_version h = req_major \<and> env_interface_bugfix h \<ge> req_bugfix) \<longrightarrow>
        load_functions p known h req_major req_bugfix names s =
          resolve_and_register h known names (after_essentials h s)) \<and>
     (proc_address h ''avs_get_env_property'' \<noteq> None \<and>
      \<not> (env_interface_version h > req_major \<or>
         env_interface_version h = req_major \<and> env_interface_bugfix h \<ge> req_bugfix) \<longrightarrow>
        load_functions p known h req_major req_bugfix names s =
          (False, unload_library
             ((after_essentials h s)
                \<lparr> last_error_message :=
                    take 199
                      (''Avisynth C API Error: Plugin requires interface >= '' @
                       printf_d req_major @ ''.'' @ printf_d req_bugfix @ '', but found '' @
                       printf_d (env_interface_version h) @ ''.'' @
                       printf_d (env_interface_bugfix h) @ ''.'') \<rparr>))) \<and>
     (proc_address h ''avs_get_env_property'' = None \<and> check_version_result h req_major = 0 \<longrightarrow>
        load_functions p known h req_major req_bugfix names s =
          resolve_and_register h known names (after_essentials h s)) \<and>
     (proc_address h ''avs_get_env_property'' = None \<and> check_version_result h req_major \<noteq> 0 \<longrightarrow>
        load_functions p known h req_major req_bugfix names s =
          (False, unload_library
             ((after_essentials h s)
                \<lparr> last_error_message :=
                    take 199
                      (''Avisynth C API Error: Plugin requires interface >= '' @
                       printf_d req_major @ ''.'' @ printf_d req_bugfix @
                       '', but the installed AviSynth+ version is too old.'') \<rparr>)))"
  using assms(2,3)
  by (auto simp: load_functions_opened [OF assms(1)] Let_def version_check_verdict
        version_check_numbers version_error_msg_def after_essentials_table)

theorem version_negotiation_witness:
  "open_result host_10_0 = Some 7 \<and>
   proc_address host_10_0 ''avs_check_version'' \<noteq> None \<and>
   proc_address host_10_0 ''avs_at_exit'' \<noteq> None \<and>
   proc_address host_10_0 ''avs_get_env_property'' \<noteq> None \<and>
   fst (load_functions Other_unix known_example host_10_0 10 0 [literal_view ''avs_get_frame'']
          (initial :: 64 loader)) \<and>
   last_error_message
     (snd (load_functions Other_unix known_example host_10_0 11 0 [literal_view ''avs_get_frame'']
             (initial :: 64 loader)))
     = ''Avisynth C API Error: Plugin requires interface >= 11.0, but found 10.0.'' \<and>
   open_result host_old = Some 7 \<and>
   proc_address host_old ''avs_check_version'' \<noteq> None \<and>
   proc_address host_old ''avs_at_exit'' \<noteq> None \<and>
   proc_address host_old ''avs_get_env_property'' = None \<and>
   fst (load_functions Other_unix known_example host_old 10 0 [literal_view ''avs_get_frame'']
          (initial :: 64 loader)) \<and>
   last_error_message
     (snd (load_functions Other_unix known_example host_old 11 0 [literal_view ''avs_get_frame'']
             (initial :: 64 loader)))
     = ''Avisynth C API Error: Plugin requires interface >= 11.0, but the installed AviSynth+ version is too old.''"
  using
    version_negotiation [of host_10_0 7 "initial :: 64 loader" 10 0 Other_unix known_example
      "[literal_view ''avs_get_frame'']"]
    version_negotiation [of host_10_0 7 "initial :: 64 loader" 11 0 Other_unix known_example
      "[literal_view ''avs_get_frame'']"]
    version_negotiation [of host_old 7 "initial :: 64 loader" 10 0 Other_unix known_example
      "[literal_view ''avs_get_frame'']"]
    version_negotiation [of host_old 7 "initial :: 64 loader" 11 0 Other_unix known_example
      "[literal_view ''avs_get_frame'']"]
  by (simp add: resolve_and_register_iff unload_library_frame example_defs printf_d_def
        dec_nat.simps)

subsection \<open>A failing first load\<close>

text \<open>
  Claim C4. A first caller, one that finds the count at 0, finds the loader \<^verbatim>\<open>UNLOADED\<close>
  (lemma \<open>first_caller_finds_unloaded\<close> below). Its call fails exactly when the
  library cannot be opened, a required bootstrap symbol is missing, the version is
  insufficient, the symbol of a required name of the master list (what \<^verbatim>\<open>data()\<close> of
  its view denotes) does not resolve, or a required name is not in the master list. Whenever it fails, the loader is \<^verbatim>\<open>UNLOADED\<close> again (null
  handle, zeroed table, flag clear, null accessor, count 0), the count is the one before the
  call, and every library handle opened during the call was closed.
\<close>

theorem failed_first_load_rolls_back:
  assumes "UNLOADED s"
  shows
    "(fst (get_api p known h req_major req_bugfix names s) = None \<longleftrightarrow>
        open_result h = None \<or>
        proc_address h ''avs_check_version'' = None \<or>
        proc_address h ''avs_at_exit'' = None \<or>
        \<not> (if proc_address h ''avs_get_env_property'' \<noteq> None
           then env_interface_version h > req_major \<or>
                env_interface_version h = req_major \<and> env_interface_bugfix h \<ge> req_bugfix
           else check_version_result h req_major = 0) \<or>
        (\<exists>n\<in>set names. sv_chars n \<in> set known \<and> proc_address h (sv_data n) = None) \<or>
        (\<exists>n\<in>set names. sv_chars n \<notin> set known)) \<and>
     (fst (get_api p known h req_major req_bugfix names s) = None \<longrightarrow>
        UNLOADED (snd (get_api p known h req_major req_bugfix names s)) \<and>
        ref_count (snd (get_api p known h req_major req_bugfix names s)) = ref_count s \<and>
        held_open (os_calls (snd (get_api p known h req_major req_bugfix names s)))
          = held_open (os_calls s))"
proof -
  let ?s1 = "s\<lparr> ref_count := 1 \<rparr>"
  let ?l = "load_functions p known h req_major req_bugfix names ?s1"
  from assms have z: "ref_count s = 0" by (simp add: UNLOADED_def)
  have res: "fst (get_api p known h req_major req_bugfix names s) = None \<longleftrightarrow> \<not> fst ?l"
    by (simp add: get_api_first [OF z])
  have causes: "\<not> fst ?l \<longleftrightarrow>
        open_result h = None \<or>
        proc_address h ''avs_check_version'' = None \<or>
        proc_address h ''avs_at_exit'' = None \<or>
        \<not> (if proc_address h ''avs_get_env_property'' \<noteq> None
           then env_interface_version h > req_major \<or>
                env_interface_version h = req_major \<and> env_interface_bugfix h \<ge> req_bugfix
           else check_version_result h req_major = 0) \<or>
        (\<exists>n\<in>set names. sv_chars n \<in> set known \<and> proc_address h (sv_data n) = None) \<or>
        (\<exists>n\<in>set names. sv_chars n \<notin> set known)"
  proof (cases "open_result h")
    case None
    then show ?thesis by (simp add: load_functions_not_found)
  next
    case (Some a)
    show ?thesis
      unfolding load_functions_opened [OF Some] Let_def
      using Some by (auto simp: version_check_verdict resolve_and_register_iff)
  qed
  have rolled: "UNLOADED (snd (get_api p known h req_major req_bugfix names s)) \<and>
        ref_count (snd (get_api p known h req_major req_bugfix names s)) = ref_count s \<and>
        held_open (os_calls (snd (get_api p known h req_major req_bugfix names s)))
          = held_open (os_calls s)" if f: "\<not> fst ?l"
    using load_functions_fail [OF f] assms f
    by (simp add: get_api_first [OF z] UNLOADED_def)
  show ?thesis using res causes rolled by blast
qed

theorem failed_first_load_rolls_back_witness:
  "UNLOADED (initial :: 64 loader) \<and>
   fst (get_api Windows known_example host_no_library 10 0 [literal_view ''avs_get_frame'']
          (initial :: 64 loader)) = None \<and>
   UNLOADED (snd (get_api Windows known_example host_no_library 10 0
          [literal_view ''avs_get_frame''] (initial :: 64 loader))) \<and>
   fst (get_api Windows known_example (host_10_0 \<lparr> proc_address := map_of [] \<rparr>) 10 0
          [literal_view ''avs_get_frame''] (initial :: 64 loader)) = None \<and>
   UNLOADED (snd (get_api Windows known_example (host_10_0 \<lparr> proc_address := map_of [] \<rparr>) 10 0
          [literal_view ''avs_get_frame''] (initial :: 64 loader))) \<and>
   fst (get_api Windows known_example host_10_0 10 1 [literal_view ''avs_get_frame'']
          (initial :: 64 loader)) = None \<and>
   UNLOADED (snd (get_api Windows known_example host_10_0 10 1 [literal_view ''avs_get_frame'']
          (initial :: 64 loader))) \<and>
   ''avs_release_clip'' \<in> set known_example \<and>
   fst (get_api Windows known_example host_10_0 10 0
          [literal_view ''avs_get_frame'', literal_view ''avs_release_clip'']
          (initial :: 64 loader)) = None \<and>
   UNLOADED (snd (get_api Windows known_example host_10_0 10 0
          [literal_view ''avs_get_frame'', literal_view ''avs_release_clip'']
          (initial :: 64 loader))) \<and>
   sv_chars cut_view \<in> set known_example \<and>
   proc_address host_10_0 (sv_chars cut_view) \<noteq> None \<and>
   proc_address host_10_0 (sv_data cut_view) = None \<and>
   fst (get_api Windows known_example host_10_0 10 0 [cut_view] (initial :: 64 loader))
     = None \<and>
   UNLOADED (snd (get_api Windows known_example host_10_0 10 0 [cut_view]
          (initial :: 64 loader))) \<and>
   ''avs_totally_made_up'' \<notin> set known_example \<and>
   fst (get_api Windows known_example host_10_0 10 0 [literal_view ''avs_totally_made_up'']
          (initial :: 64 loader)) = None \<and>
   UNLOADED (snd (get_api Windows known_example host_10_0 10 0
          [literal_view ''avs_totally_made_up''] (initial :: 64 loader))) \<and>
   fst (get_api Windows known_example host_10_0 10 0 [literal_view ''avs_get_frame'']
          (initial :: 64 loader)) \<noteq> None"
proof -
  have u: "UNLOADED (initial :: 64 loader)"
    by (simp add: UNLOADED_def initial_def)
  show ?thesis
    using u
      failed_first_load_rolls_back [OF u, of Windows known_example host_no_library 10 0
        "[literal_view ''avs_get_frame'']"]
      failed_first_load_rolls_back [OF u, of Windows known_example
        "host_10_0 \<lparr> proc_address := map_of [] \<rparr>" 10 0 "[literal_view ''avs_get_frame'']"]
      failed_first_load_rolls_back [OF u, of Windows known_example host_10_0 10 1
        "[literal_view ''avs_get_frame'']"]
      failed_first_load_rolls_back [OF u, of Windows known_example host_10_0 10 0
        "[literal_view ''avs_get_frame'', literal_view ''avs_release_clip'']"]
      failed_first_load_rolls_back [OF u, of Windows known_example host_10_0 10 0
        "[cut_view]"]
      failed_first_load_rolls_back [OF u, of Windows known_example host_10_0 10 0
        "[literal_view ''avs_totally_made_up'']"]
      failed_first_load_rolls_back [OF u, of Windows known_example host_10_0 10 0
        "[literal_view ''avs_get_frame'']"]
    by (simp add: known_example_def host_10_0_def host_no_library_def literal_view_def
          cut_view_def)
qed

subsection \<open>An unknown required name\<close>

text \<open>
  Claim C7, as written, has the internal-error message recorded in every first load whose
  required list holds a name outside the master list. The load sequence reports the first
  step that fails, so an earlier failure records its own message: where the library cannot
  be opened, the message is the one about the library.
\<close>

theorem unknown_name_message_counterexample:
  "literal_view ''avs_totally_made_up'' \<in> set [literal_view ''avs_totally_made_up''] \<and>
   sv_chars (literal_view ''avs_totally_made_up'') \<notin> set known_example \<and>
   ref_count (initial :: 64 loader) = 0 \<and>
   last_error_message
     (snd (get_api Other_unix known_example host_no_library 10 0
             [literal_view ''avs_totally_made_up''] (initial :: 64 loader)))
     = ''Failed to load avisynth library (libavisynth.so). Is Avisynth+ installed correctly?'' \<and>
   last_error_message
     (snd (get_api Other_unix known_example host_no_library 10 0
             [literal_view ''avs_totally_made_up''] (initial :: 64 loader)))
     \<noteq> ''Internal Error: Unknown function requested as required: avs_totally_made_up''"
  by (simp add: run_defs example_defs AVS_LIB_NAME_def)

text \<open>
  Claim C7, amended. A first load whose required list holds a name outside the master list
  always fails: \<^verbatim>\<open>get_api\<close> returns null, the handle is null, every library handle opened
  during the call was closed, and the count is back at 0. If the library opens, both
  required bootstrap symbols resolve, the version test passes and every name before the
  unknown one is in the master list and has a symbol (what \<^verbatim>\<open>data()\<close> of its view
  denotes) that resolves, the recorded message is the internal error naming the unknown
  name by the characters of its view.
\<close>

theorem unknown_required_name_fails:
  assumes "ref_count s = 0" and "n \<in> set names" and "sv_chars n \<notin> set known"
  shows
    "fst (get_api p known h req_major req_bugfix names s) = None \<and>
     library_handle (snd (get_api p known h req_major req_bugfix names s)) = None \<and>
     held_open (os_calls (snd (get_api p known h req_major req_bugfix names s)))
       = held_open (os_calls s) \<and>
     ref_count (snd (get_api p known h req_major req_bugfix names s)) = 0 \<and>
     (open_result h \<noteq> None \<and>
      proc_address h ''avs_check_version'' \<noteq> None \<and>
      proc_address h ''avs_at_exit'' \<noteq> None \<and>
      (if proc_address h ''avs_get_env_property'' \<noteq> None
       then env_interface_version h > req_major \<or>
            env_interface_version h = req_major \<and> env_interface_bugfix h \<ge> req_bugfix
       else check_version_result h req_major = 0) \<and>
      names = before @ n # after \<and>
      (\<forall>m\<in>set before. sv_chars m \<in> set known \<and> proc_address h (sv_data m) \<noteq> None) \<longrightarrow>
        last_error_message (snd (get_api p known h req_major req_bugfix names s)) =
          ''Internal Error: Unknown function requested as required: '' @ sv_chars n)"
proof -
  let ?s1 = "s\<lparr> ref_count := 1 \<rparr>"
  let ?l = "load_functions p known h req_major req_bugfix names ?s1"
  have f: "\<not> fst ?l"
  proof (cases "open_result h")
    case None
    then show ?thesis by (simp add: load_functions_not_found)
  next
    case (Some a)
    have "\<not> fst (resolve_and_register h known names (after_essentials h ?s1))"
      using assms(2,3) by (auto simp: resolve_and_register_iff)
    then show ?thesis
      unfolding load_functions_opened [OF Some] Let_def by simp
  qed
  have msg: "last_error_message (snd ?l) =
          ''Internal Error: Unknown function requested as required: '' @ sv_chars n"
    if c: "open_result h \<noteq> None" "proc_address h ''avs_check_version'' \<noteq> None"
      "proc_address h ''avs_at_exit'' \<noteq> None"
      "fst (version_check h (proc_address h) req_major req_bugfix)"
      "names = before @ n # after"
      "\<forall>m\<in>set before. sv_chars m \<in> set known \<and> proc_address h (sv_data m) \<noteq> None"
  proof -
    from c(1) obtain a where Some: "open_result h = Some a" by auto
    have nok: "\<not> fst (load_required h known names (after_essentials h ?s1))"
      using assms(2,3) by (auto simp: load_required_iff)
    have "?l = resolve_and_register h known names (after_essentials h ?s1)"
      using c(2,3,4) by (auto simp: load_functions_opened [OF Some] Let_def)
    then have "snd ?l = snd (load_required h known names (after_essentials h ?s1))"
      using nok by (simp add: resolve_and_register_def case_prod_beta Let_def)
    then show ?thesis
      using load_required_unknown [OF c(6) assms(3)] c(5) by simp
  qed
  show ?thesis
    using load_functions_fail [OF f] f msg
    by (simp add: get_api_first [OF assms(1)] version_check_verdict del: not_None_eq)
qed

theorem unknown_required_name_fails_witness:
  "ref_count (initial :: 64 loader) = 0 \<and>
   literal_view ''avs_totally_made_up''
     \<in> set [literal_view ''avs_get_frame'', literal_view ''avs_totally_made_up''] \<and>
   sv_chars (literal_view ''avs_totally_made_up'') \<notin> set known_example \<and>
   sv_chars (literal_view ''avs_get_frame'') \<in> set known_example \<and>
   proc_address host_10_0 (sv_data (literal_view ''avs_get_frame'')) \<noteq> None \<and>
   fst (get_api Other_unix known_example host_10_0 10 0
          [literal_view ''avs_get_frame'', literal_view ''avs_totally_made_up'']
          (initial :: 64 loader)) = None \<and>
   library_handle (snd (get_api Other_unix known_example host_10_0 10 0
          [literal_view ''avs_get_frame'', literal_view ''avs_totally_made_up'']
          (initial :: 64 loader))) = None \<and>
   held_open (os_calls (snd (get_api Other_unix known_example host_10_0 10 0
          [literal_view ''avs_get_frame'', literal_view ''avs_totally_made_up'']
          (initial :: 64 loader)))) = 0 \<and>
   last_error_message (snd (get_api Other_unix known_example host_10_0 10 0
          [literal_view ''avs_get_frame'', literal_view ''avs_totally_made_up'']
          (initial :: 64 loader)))
     = ''Internal Error: Unknown function requested as required: avs_totally_made_up''"
  using unknown_required_name_fails
    [of "initial :: 64 loader" "literal_view ''avs_totally_made_up''"
        "[literal_view ''avs_get_frame'', literal_view ''avs_totally_made_up'']" known_example
        Other_unix host_10_0 10 0 "[literal_view ''avs_get_frame'']" "[]"]
  by (simp add: known_example_def host_10_0_def initial_def held_open_def literal_view_def)

subsection \<open>A later caller with a satisfied requirement\<close>

text \<open>
  Claim C5. A call of \<^verbatim>\<open>get_api\<close> that finds the reference count different from 0 (above
  0 in particular) and the instance initialized, and whose version requirement the loaded
  host satisfies, returns the table and changes nothing but the count, which grows by one,
  and the shared accessor, which is set to the table: the library is not opened again, no
  symbol is looked up again, the table and the handle stay as they were. The pointer it
  returns is the one every successful call returns, whatever its arguments and state.
\<close>

theorem get_api_again_shares_table:
  assumes "ref_count s \<noteq> 0" and "initialized s"
    and "if api_pointers s ''avs_get_env_property'' \<noteq> None
         then env_interface_version h > req_major \<or>
              env_interface_version h = req_major \<and> env_interface_bugfix h \<ge> req_bugfix
         else check_version_result h req_major = 0"
  shows "get_api p known h req_major req_bugfix names s =
           (Some Instance_api_pointers,
            s\<lparr> ref_count := ref_count s + 1, g_avs_api := Some Instance_api_pointers \<rparr>) \<and>
         os_calls (snd (get_api p known h req_major req_bugfix names s)) = os_calls s \<and>
         api_pointers (snd (get_api p known h req_major req_bugfix names s)) = api_pointers s \<and>
         library_handle (snd (get_api p known h req_major req_bugfix names s)) = library_handle s \<and>
         (fst (get_api p' known' h' req_major' req_bugfix' names' s') \<noteq> None \<longrightarrow>
            fst (get_api p' known' h' req_major' req_bugfix' names' s') =
            fst (get_api p known h req_major req_bugfix names s))"
proof -
  have "fst (version_check h (api_pointers s) req_major req_bugfix)"
    using assms(3) by (simp add: version_check_verdict)
  from get_api_recheck_ok [OF assms(1,2) this]
  have eq: "get_api p known h req_major req_bugfix names s =
           (Some Instance_api_pointers,
            s\<lparr> ref_count := ref_count s + 1, g_avs_api := Some Instance_api_pointers \<rparr>)" .
  have one: "r \<noteq> None \<longrightarrow> r = Some Instance_api_pointers" for r :: "table_ref option"
    by (cases r) (auto intro: table_ref.exhaust)
  show ?thesis unfolding eq using one by simp
qed

theorem get_api_again_shares_table_witness:
  "ref_count loaded_example \<noteq> 0 \<and> initialized loaded_example \<and>
   api_pointers loaded_example ''avs_get_env_property'' \<noteq> None \<and>
   env_interface_version host_10_0 = 10 \<and> env_interface_bugfix host_10_0 \<ge> 0 \<and>
   get_api Other_unix known_example host_10_0 10 0 [literal_view ''avs_release_clip''] loaded_example =
     (Some Instance_api_pointers,
      loaded_example \<lparr> ref_count := 2, g_avs_api := Some Instance_api_pointers \<rparr>) \<and>
   os_calls (snd (get_api Other_unix known_example host_10_0 10 0 [literal_view ''avs_release_clip'']
                    loaded_example)) = os_calls loaded_example \<and>
   fst (get_api Other_unix known_example host_10_0 10 0 [literal_view ''avs_get_frame'']
          (initial :: 64 loader)) \<noteq> None \<and>
   fst (get_api Other_unix known_example host_10_0 10 0 [literal_view ''avs_get_frame'']
          (initial :: 64 loader)) =
   fst (get_api Other_unix known_example host_10_0 10 0 [literal_view ''avs_release_clip''] loaded_example)"
proof -
  have h1: "ref_count loaded_example \<noteq> 0" and h2: "initialized loaded_example"
    and g: "api_pointers loaded_example ''avs_get_env_property'' \<noteq> None"
    by (simp_all add: loaded_example_fields)
  have v: "env_interface_version host_10_0 = 10" "env_interface_bugfix host_10_0 \<ge> 0"
    by (simp_all add: host_10_0_def)
  have h3: "if api_pointers loaded_example ''avs_get_env_property'' \<noteq> None
         then env_interface_version host_10_0 > 10 \<or>
              env_interface_version host_10_0 = 10 \<and> env_interface_bugfix host_10_0 \<ge> 0
         else check_version_result host_10_0 10 = 0"
    using g v by simp
  note T = get_api_again_shares_table
    [where p = Other_unix and known = known_example and names = "[literal_view ''avs_release_clip'']"
       and p' = Other_unix and known' = known_example and h' = host_10_0
       and req_major' = 10 and req_bugfix' = 0 and names' = "[literal_view ''avs_get_frame'']"
       and s' = "initial :: 64 loader", OF h1 h2 h3]
  have one: "(1 :: 64 word) + 1 = 2" by simp
  have a: "get_api Other_unix known_example host_10_0 10 0 [literal_view ''avs_release_clip''] loaded_example =
     (Some Instance_api_pointers,
      loaded_example \<lparr> ref_count := 2, g_avs_api := Some Instance_api_pointers \<rparr>)"
    using T [THEN conjunct1] by (simp only: loaded_example_fields(3) one)
  have b: "os_calls (snd (get_api Other_unix known_example host_10_0 10 0 [literal_view ''avs_release_clip'']
                    loaded_example)) = os_calls loaded_example"
    by (rule T [THEN conjunct2, THEN conjunct1])
  have c: "fst (get_api Other_unix known_example host_10_0 10 0 [literal_view ''avs_get_frame'']
          (initial :: 64 loader)) \<noteq> None"
    by (simp only: first_call_example) simp
  have d: "fst (get_api Other_unix known_example host_10_0 10 0 [literal_view ''avs_get_frame'']
          (initial :: 64 loader)) =
       fst (get_api Other_unix known_example host_10_0 10 0 [literal_view ''avs_release_clip''] loaded_example)"
    by (rule T [THEN conjunct2, THEN conjunct2, THEN conjunct2, THEN conjunct2, THEN mp, OF c])
  show ?thesis
    by (intro conjI h1 h2 g v a b c d)
qed

subsection \<open>Load and teardown\<close>

text \<open>
  Claim C6. After a successful first load (count 0 before the call) followed by the teardown
  callback, which brings the count from 1 to 0, the loader is in the initial state again,
  field by field: null handle, all-null table, initialized flag clear, empty error message,
  null shared accessor, count 0. Only the log of calls to the operating system, which is not
  part of the loader, has grown, and it holds one close for the one open.
\<close>

theorem load_then_teardown_round_trip:
  assumes "ref_count s = 0"
    and "fst (get_api p known h req_major req_bugfix names s) \<noteq> None"
  shows "cleanup_callback (snd (get_api p known h req_major req_bugfix names s)) =
           initial \<lparr> os_calls :=
             os_calls (cleanup_callback (snd (get_api p known h req_major req_bugfix names s))) \<rparr> \<and>
         held_open (os_calls (cleanup_callback (snd (get_api p known h req_major req_bugfix names s))))
           = held_open (os_calls s)"
proof -
  let ?l = "load_functions p known h req_major req_bugfix names (s\<lparr> ref_count := 1 \<rparr>)"
  from assms have ok: "fst ?l"
    by (simp add: get_api_first split: if_splits)
  then have eq: "snd (get_api p known h req_major req_bugfix names s) =
                 (snd ?l)\<lparr> g_avs_api := Some Instance_api_pointers \<rparr>"
    using assms(1) by (simp add: get_api_first)
  from load_functions_ok [OF ok] obtain a where
    f: "initialized (snd ?l)" "last_error_message (snd ?l) = []" "library_handle (snd ?l) = Some a"
       "ref_count (snd ?l) = 1"
       "opens (os_calls (snd ?l)) = Suc (opens (os_calls s))"
       "closes (os_calls (snd ?l)) = closes (os_calls s)"
    by auto
  show ?thesis
    unfolding eq using f
    by (simp add: cleanup_callback_def unload_library_def initial_def held_open_def
             opens_append closes_append)
qed

theorem load_then_teardown_round_trip_witness:
  "ref_count (initial :: 64 loader) = 0 \<and>
   fst (get_api Other_unix known_example host_10_0 10 0 [literal_view ''avs_get_frame'']
          (initial :: 64 loader)) \<noteq> None \<and>
   library_handle loaded_example = Some 7 \<and>
   cleanup_callback loaded_example =
     initial \<lparr> os_calls := os_calls loaded_example @ [Close_library 7] \<rparr>"
  using load_then_teardown_round_trip
    [of "initial :: 64 loader" Other_unix known_example host_10_0 10 0 "[literal_view ''avs_get_frame'']"]
    first_call_example
  by (simp add: loaded_example_def [symmetric] loaded_example_fields)
     (simp add: initial_def cleanup_callback_def unload_library_def loaded_example_fields)

subsection \<open>A later caller with a stricter requirement\<close>

text \<open>
  Claim C1 says that a later call whose version requirement the loaded host does not
  satisfy unloads and returns null, and that afterwards the accessor is null and the count
  is 0. The run below is the spec's scenario: a first call requiring 10.0 succeeds on a host
  at 10.0 and the count is 1; a second call requiring 11.0 returns null and unloads, the
  handle and the accessor are null, but the count is 2, so the loader is not \<^verbatim>\<open>UNLOADED\<close>.
  The reference taken by the failing call is never given back: after the one teardown
  callback that was registered the count is 1, the loader is not initialized, and a new
  call requiring 10.0 returns null without trying to load.
\<close>

theorem stricter_caller_unloads_but_keeps_count:
  "fst (get_api Other_unix known_example host_10_0 10 0 [literal_view ''avs_get_frame'']
          (initial :: 64 loader)) = Some Instance_api_pointers \<and>
   ref_count loaded_example = 1 \<and>
   fst (get_api Other_unix known_example host_10_0 11 0 [literal_view ''avs_get_frame''] loaded_example)
     = None \<and>
   library_handle after_stricter_call = None \<and>
   \<not> initialized after_stricter_call \<and>
   g_avs_api after_stricter_call = None \<and>
   ref_count after_stricter_call = 2 \<and>
   \<not> UNLOADED after_stricter_call \<and>
   ref_count (cleanup_callback after_stricter_call) = 1 \<and>
   fst (get_api Other_unix known_example host_10_0 10 0 [literal_view ''avs_get_frame'']
          (cleanup_callback after_stricter_call)) = None"
proof -
  have c: "cleanup_callback after_stricter_call = after_stricter_call \<lparr> ref_count := 1 \<rparr>"
    by (simp add: cleanup_callback_def after_stricter_call_fields)
  have "fst (get_api Other_unix known_example host_10_0 10 0 [literal_view ''avs_get_frame'']
          (after_stricter_call \<lparr> ref_count := 1 \<rparr>)) = None"
    by (subst get_api_not_initialized) (simp_all add: after_stricter_call_fields)
  then show ?thesis
    using first_call_example
    by (simp add: c after_stricter_call_eq(1) after_stricter_call_fields loaded_example_fields
          UNLOADED_def)
qed

subsection \<open>Counting references\<close>

text \<open>A successful call leaves the library loaded and counts one more reference.\<close>

lemma get_api_success:
  assumes "ref_count s = 0 \<or> library_handle s \<noteq> None"
    and "fst (get_api p known h rm rb ns s) \<noteq> None"
  shows "library_handle (snd (get_api p known h rm rb ns s)) \<noteq> None \<and>
         initialized (snd (get_api p known h rm rb ns s)) \<and>
         g_avs_api (snd (get_api p known h rm rb ns s)) = Some Instance_api_pointers \<and>
         ref_count (snd (get_api p known h rm rb ns s)) = ref_count s + 1"
proof (cases "ref_count s = 0")
  case True
  let ?l = "load_functions p known h rm rb ns (s\<lparr> ref_count := 1 \<rparr>)"
  from assms(2) have ok: "fst ?l" by (simp add: get_api_first [OF True] split: if_splits)
  from load_functions_ok [OF ok] show ?thesis
    using ok True by (simp add: get_api_first [OF True])
next
  case False
  with assms(1) have hd: "library_handle s \<noteq> None" by simp
  show ?thesis
  proof (cases "initialized s")
    case ini: True
    show ?thesis
    proof (cases "fst (version_check h (api_pointers s) rm rb)")
      case True
      show ?thesis using hd ini by (simp add: get_api_recheck_ok [OF False ini True])
    next
      case nv: False
      with assms(2) show ?thesis by (simp add: get_api_recheck_fail [OF False ini nv])
    qed
  next
    case nini: False
    with assms(2) show ?thesis by (simp add: get_api_not_initialized [OF False nini])
  qed
qed

lemma get_api_all_success:
  "ref_count s = 0 \<or> library_handle s \<noteq> None \<Longrightarrow> fst (get_api_all p known rs s) \<Longrightarrow>
   ref_count (snd (get_api_all p known rs s)) = ref_count s + of_nat (length rs) \<and>
   (rs \<noteq> [] \<longrightarrow> library_handle (snd (get_api_all p known rs s)) \<noteq> None \<and>
                 initialized (snd (get_api_all p known rs s)))"
proof (induction rs arbitrary: s)
  case Nil
  then show ?case by simp
next
  case (Cons r rs)
  obtain h rm rb ns where r: "r = (h, rm, rb, ns)" by (cases r) auto
  let ?s1 = "snd (get_api p known h rm rb ns s)"
  from Cons.prems(2) have ok1: "fst (get_api p known h rm rb ns s) \<noteq> None"
    and okr: "fst (get_api_all p known rs ?s1)"
    by (simp_all add: r case_prod_beta Let_def)
  from get_api_success [OF Cons.prems(1) ok1]
  have s1: "library_handle ?s1 \<noteq> None" "initialized ?s1" "ref_count ?s1 = ref_count s + 1"
    by simp_all
  have eq: "snd (get_api_all p known (r # rs) s) = snd (get_api_all p known rs ?s1)"
    by (simp add: r case_prod_beta Let_def)
  from Cons.IH [of ?s1, OF _ okr] s1(1)
  have ih: "ref_count (snd (get_api_all p known rs ?s1)) = ref_count ?s1 + of_nat (length rs)"
    "rs \<noteq> [] \<longrightarrow> library_handle (snd (get_api_all p known rs ?s1)) \<noteq> None \<and>
                 initialized (snd (get_api_all p known rs ?s1))"
    by simp_all
  show ?case
  proof (cases "rs = []")
    case True
    then show ?thesis unfolding eq using s1 by simp
  next
    case False
    then show ?thesis unfolding eq using ih s1(3) by (simp add: algebra_simps)
  qed
qed

lemma cleanup_callback_settled: "settled s \<Longrightarrow> settled (cleanup_callback s)"
  by (auto simp: settled_def cleanup_callback_def unload_library_def Let_def)

lemma cleanup_callback_count: "ref_count (cleanup_callback s) = ref_count s - 1"
  by (simp add: cleanup_callback_def unload_library_frame Let_def)

lemma cleanup_callback_last:
  "settled s \<Longrightarrow> ref_count s = 1 \<Longrightarrow> UNLOADED (cleanup_callback s)"
  by (auto simp: settled_def cleanup_callback_def unload_library_def Let_def UNLOADED_def)

lemma cleanup_callback_not_last:
  "ref_count s \<noteq> 1 \<Longrightarrow> cleanup_callback s = s\<lparr> ref_count := ref_count s - 1 \<rparr>"
  by (simp add: cleanup_callback_def Let_def)

lemma teardowns_settled: "settled s \<Longrightarrow> settled ((cleanup_callback ^^ n) s)"
  by (induction n) (simp_all add: cleanup_callback_settled)

lemma teardowns_count: "ref_count ((cleanup_callback ^^ n) s) = ref_count s - of_nat n"
  by (induction n) (simp_all add: cleanup_callback_count)

lemma of_nat_eq_1:
  "m < 2 ^ LENGTH('w) \<Longrightarrow> (of_nat m :: 'w::len word) = 1 \<Longrightarrow> m = 1"
  using of_nat_inverse [of m "1 :: 'w word"] by simp

lemma teardowns_before_last:
  assumes "library_handle s \<noteq> None" and "initialized s"
    and "ref_count s = (of_nat n :: 'w::len word)" and "n < 2 ^ LENGTH('w)"
  shows "k < n \<Longrightarrow>
         library_handle ((cleanup_callback ^^ k) s) \<noteq> None \<and>
         initialized ((cleanup_callback ^^ k) s) \<and>
         ref_count ((cleanup_callback ^^ k) s) = of_nat (n - k)"
proof (induction k)
  case 0
  with assms show ?case by simp
next
  case (Suc k)
  let ?t = "(cleanup_callback ^^ k) s"
  from Suc have ih: "library_handle ?t \<noteq> None" "initialized ?t" "ref_count ?t = of_nat (n - k)"
    by simp_all
  have "n - k < 2 ^ LENGTH('w)" using assms(4) by simp
  moreover have "n - k \<noteq> 1" using Suc.prems by simp
  ultimately have ne: "ref_count ?t \<noteq> 1"
    unfolding ih(3) using of_nat_eq_1 [of "n - k"] by blast
  have "n - k = Suc (n - Suc k)" using Suc.prems by simp
  then have "of_nat (n - k) - (1 :: 'w word) = of_nat (n - Suc k)"
    by (simp only: of_nat_Suc) simp
  then show ?case
    using ih by (simp add: cleanup_callback_not_last [OF ne])
qed

text \<open>
  Claim C2. Start \<^verbatim>\<open>UNLOADED\<close> and make N calls of \<^verbatim>\<open>get_api\<close> that all succeed, with no
  teardown in between: the reference count is N (as a machine word: N modulo the word size,
  which is N itself for every N the word can hold). After N calls of the teardown callback
  the loader is \<^verbatim>\<open>UNLOADED\<close> again: count 0, handle null, table zeroed, initialized flag
  clear, shared accessor null. When N fits the word, the unloading happens at the last
  teardown and not before: after k < N teardowns the library is still loaded and
  initialized and the count is N - k.
\<close>

theorem count_follows_successful_calls:
  assumes "UNLOADED (s :: 'w::len loader)" and "fst (get_api_all p known requests s)"
  shows "ref_count (snd (get_api_all p known requests s)) = of_nat (length requests) \<and>
         UNLOADED ((cleanup_callback ^^ length requests) (snd (get_api_all p known requests s))) \<and>
         (length requests < 2 ^ LENGTH('w) \<longrightarrow>
            (\<forall>k<length requests.
               library_handle ((cleanup_callback ^^ k) (snd (get_api_all p known requests s))) \<noteq> None \<and>
               initialized ((cleanup_callback ^^ k) (snd (get_api_all p known requests s))) \<and>
               ref_count ((cleanup_callback ^^ k) (snd (get_api_all p known requests s)))
                 = of_nat (length requests - k)))"
proof -
  let ?s' = "snd (get_api_all p known requests s)"
  let ?n = "length requests"
  from assms(1) have z: "ref_count s = 0" by (simp add: UNLOADED_def)
  from get_api_all_success [of s p known requests] z assms(2)
  have cnt: "ref_count ?s' = of_nat ?n"
    and ld: "requests \<noteq> [] \<longrightarrow> library_handle ?s' \<noteq> None \<and> initialized ?s'"
    by simp_all
  have st: "settled ?s'"
  proof (cases "requests = []")
    case True
    with assms(1) show ?thesis by (simp add: settled_def UNLOADED_def)
  next
    case False
    with ld show ?thesis by (simp add: settled_def)
  qed
  have un: "UNLOADED ((cleanup_callback ^^ ?n) ?s')"
  proof (cases ?n)
    case 0
    with assms(1) show ?thesis by simp
  next
    case (Suc m)
    let ?v = "(cleanup_callback ^^ m) ?s'"
    have "settled ?v" by (rule teardowns_settled [OF st])
    moreover have "ref_count ?v = 1"
      by (simp add: teardowns_count cnt Suc)
    ultimately have "UNLOADED (cleanup_callback ?v)" by (rule cleanup_callback_last)
    then show ?thesis by (simp add: Suc)
  qed
  have bl: "\<forall>k<?n. library_handle ((cleanup_callback ^^ k) ?s') \<noteq> None \<and>
               initialized ((cleanup_callback ^^ k) ?s') \<and>
               ref_count ((cleanup_callback ^^ k) ?s') = of_nat (?n - k)"
    if b: "?n < 2 ^ LENGTH('w)"
  proof (intro allI impI)
    fix k assume k: "k < ?n"
    then have "requests \<noteq> []" by auto
    with ld have "library_handle ?s' \<noteq> None" "initialized ?s'" by simp_all
    from teardowns_before_last [OF this cnt b k]
    show "library_handle ((cleanup_callback ^^ k) ?s') \<noteq> None \<and>
               initialized ((cleanup_callback ^^ k) ?s') \<and>
               ref_count ((cleanup_callback ^^ k) ?s') = of_nat (?n - k)" .
  qed
  show ?thesis using cnt un bl by blast
qed
lemma second_call_example:
  "get_api Other_unix known_example host_10_0 9 5 [literal_view ''avs_get_frame''] loaded_example =
     (Some Instance_api_pointers,
      loaded_example \<lparr> ref_count := 2, g_avs_api := Some Instance_api_pointers \<rparr>)"
proof -
  have v: "fst (version_check host_10_0 (api_pointers loaded_example) 9 5)"
    by (simp add: version_check_verdict loaded_example_fields host_10_0_def)
  have nz: "ref_count loaded_example \<noteq> 0" by (simp add: loaded_example_fields)
  show ?thesis
    by (simp add: get_api_recheck_ok [OF nz loaded_example_fields(2) v] loaded_example_fields)
qed

lemma two_calls_example:
  "get_api_all Other_unix known_example
     [(host_10_0, 10, 0, [literal_view ''avs_get_frame'']), (host_10_0, 9, 5, [literal_view ''avs_get_frame''])]
     (initial :: 64 loader) =
   (True, loaded_example \<lparr> ref_count := 2, g_avs_api := Some Instance_api_pointers \<rparr>)"
proof -
  have one: "get_api Other_unix known_example host_10_0 10 0 [literal_view ''avs_get_frame'']
               (initial :: 64 loader) = (Some Instance_api_pointers, loaded_example)"
    using first_call_example by (simp add: loaded_example_def prod_eq_iff)
  show ?thesis by (simp add: one second_call_example)
qed

theorem count_follows_successful_calls_witness:
  "UNLOADED (initial :: 64 loader) \<and>
   fst (get_api_all Other_unix known_example
          [(host_10_0, 10, 0, [literal_view ''avs_get_frame'']), (host_10_0, 9, 5, [literal_view ''avs_get_frame''])]
          (initial :: 64 loader)) \<and>
   ref_count (snd (get_api_all Other_unix known_example
          [(host_10_0, 10, 0, [literal_view ''avs_get_frame'']), (host_10_0, 9, 5, [literal_view ''avs_get_frame''])]
          (initial :: 64 loader))) = 2 \<and>
   library_handle (cleanup_callback (snd (get_api_all Other_unix known_example
          [(host_10_0, 10, 0, [literal_view ''avs_get_frame'']), (host_10_0, 9, 5, [literal_view ''avs_get_frame''])]
          (initial :: 64 loader)))) \<noteq> None \<and>
   ref_count (cleanup_callback (snd (get_api_all Other_unix known_example
          [(host_10_0, 10, 0, [literal_view ''avs_get_frame'']), (host_10_0, 9, 5, [literal_view ''avs_get_frame''])]
          (initial :: 64 loader)))) = 1 \<and>
   UNLOADED (cleanup_callback (cleanup_callback (snd (get_api_all Other_unix known_example
          [(host_10_0, 10, 0, [literal_view ''avs_get_frame'']), (host_10_0, 9, 5, [literal_view ''avs_get_frame''])]
          (initial :: 64 loader)))))"
proof -
  let ?rs = "[(host_10_0, 10, 0, [literal_view ''avs_get_frame'']), (host_10_0, 9, 5, [literal_view ''avs_get_frame''])]"
  let ?s' = "snd (get_api_all Other_unix known_example ?rs (initial :: 64 loader))"
  have u: "UNLOADED (initial :: 64 loader)" by (simp add: UNLOADED_def initial_def)
  have ok: "fst (get_api_all Other_unix known_example ?rs (initial :: 64 loader))"
    by (simp only: two_calls_example fst_conv)
  note T = count_follows_successful_calls [OF u ok]
  have len: "length ?rs = 2" by simp
  have c: "ref_count ?s' = 2"
    using T [THEN conjunct1] by (simp only: len) simp
  have un: "UNLOADED (cleanup_callback (cleanup_callback ?s'))"
    using T [THEN conjunct2, THEN conjunct1] by (simp only: len numeral_2_eq_2 funpow.simps o_apply id_apply)
  have b: "length ?rs < 2 ^ LENGTH(64)" by simp
  from T [THEN conjunct2, THEN conjunct2, THEN mp, OF b, THEN spec, of 1]
  have "library_handle ((cleanup_callback ^^ 1) ?s') \<noteq> None \<and>
        initialized ((cleanup_callback ^^ 1) ?s') \<and>
        ref_count ((cleanup_callback ^^ 1) ?s') = of_nat (length ?rs - 1)"
    by (simp only: len) simp
  then have k: "library_handle (cleanup_callback ?s') \<noteq> None"
    "ref_count (cleanup_callback ?s') = 1"
    by (simp_all only: len funpow.simps One_nat_def o_apply id_apply) simp_all
  show ?thesis by (intro conjI u ok c k un)
qed

subsection \<open>The error message after a success\<close>

lemma word_succ_bounded:
  fixes c :: "'w::len word"
  assumes "unat c \<le> k" and "Suc k < 2 ^ LENGTH('w)"
  shows "c + 1 \<noteq> 0 \<and> unat (c + 1) \<le> Suc k"
proof -
  have "unat c + unat (1 :: 'w word) < 2 ^ LENGTH('w)" using assms by simp
  then have "unat (c + 1) = unat c + 1"
    by (simp add: unat_add_lem [THEN iffD1])
  then show ?thesis using assms(1) by (auto simp: unat_0_iff [symmetric] simp del: unat_0_iff)
qed

lemma word_pred_bounded:
  fixes c :: "'w::len word"
  assumes "c \<noteq> 0" and "c \<noteq> 1" and "unat c \<le> k"
  shows "c - 1 \<noteq> 0 \<and> unat (c - 1) \<le> Suc k"
proof -
  have "unat (c - 1) = unat c - 1" by (rule unat_minus_one [OF assms(1)])
  then show ?thesis using assms by auto
qed

lemma load_required_slot:
  "fst (load_required h known ns s) \<Longrightarrow> api_pointers s n \<noteq> None \<Longrightarrow>
   api_pointers (snd (load_required h known ns s)) n \<noteq> None"
proof (induction ns arbitrary: s)
  case Nil
  then show ?case by simp
next
  case (Cons m ns)
  let ?s1 = "snd (load_single_function h (sv_data m) (sv_chars m) True s)"
  from Cons.prems(1) have k: "sv_chars m \<in> set known"
    and r: "proc_address h (sv_data m) \<noteq> None"
    and rest: "fst (load_required h known ns ?s1)"
    by (auto simp: case_prod_beta lsf_simps split: if_splits)
  have eq: "load_required h known (m # ns) s = load_required h known ns ?s1"
    using k r by (simp add: case_prod_beta lsf_simps)
  have "api_pointers ?s1 n \<noteq> None"
    using Cons.prems(2) r by (simp add: lsf_table)
  from Cons.IH [OF rest this] show ?case unfolding eq .
qed

lemma load_optional_slot:
  "api_pointers s n \<noteq> None \<Longrightarrow> api_pointers (load_optional h ns s) n = api_pointers s n"
proof (induction ns arbitrary: s)
  case Nil
  then show ?case by simp
next
  case (Cons m ns)
  let ?s1 = "if api_pointers s m = None then snd (load_single_function h m m False s) else s"
  have "api_pointers ?s1 n = api_pointers s n"
    using Cons.prems by (auto simp: lsf_table)
  with Cons.IH [of ?s1] Cons.prems show ?case by simp
qed

lemma load_functions_ok_bootstrap:
  assumes "fst (load_functions p known h rm rb ns s)"
  shows "api_pointers (snd (load_functions p known h rm rb ns s)) ''avs_check_version'' \<noteq> None \<and>
         api_pointers (snd (load_functions p known h rm rb ns s)) ''avs_at_exit'' \<noteq> None"
proof (cases "open_result h")
  case None
  with assms show ?thesis by (simp add: load_functions_not_found)
next
  case (Some a)
  let ?s3 = "after_essentials h s"
  let ?s4 = "snd (load_required h known ns ?s3)"
  from assms have ess: "proc_address h ''avs_check_version'' \<noteq> None"
      "proc_address h ''avs_at_exit'' \<noteq> None"
    and eq: "load_functions p known h rm rb ns s = resolve_and_register h known ns ?s3"
    by (auto simp: load_functions_opened [OF Some] Let_def split: if_splits)
  from assms have ok: "fst (load_required h known ns ?s3)"
    by (simp add: eq resolve_and_register_def case_prod_beta Let_def split: if_splits)
  have slot: "api_pointers (snd (resolve_and_register h known ns ?s3)) n \<noteq> None"
    if "api_pointers ?s3 n \<noteq> None" for n
  proof -
    have "api_pointers ?s4 n \<noteq> None" by (rule load_required_slot [OF ok that])
    then have "api_pointers (load_optional h known ?s4) n \<noteq> None"
      by (simp add: load_optional_slot)
    then show ?thesis using ok by (simp add: resolve_and_register_def case_prod_beta Let_def)
  qed
  show ?thesis
    unfolding eq using slot ess by (simp add: after_essentials_table)
qed

lemma get_api_loader_invariant:
  assumes "loader_invariant k s" and "Suc k < 2 ^ LENGTH('w)"
  shows "loader_invariant (Suc k) (snd (get_api p known h rm rb ns (s :: 'w::len loader)))"
proof (cases "ref_count s = 0")
  case True
  with assms(1) have ni: "\<not> initialized s" and tb: "api_pointers s = Map.empty"
    by (auto simp: loader_invariant_def)
  let ?l = "load_functions p known h rm rb ns (s\<lparr> ref_count := 1 \<rparr>)"
  show ?thesis
  proof (cases "fst ?l")
    case ok: True
    from load_functions_ok [OF ok] load_functions_ok_bootstrap [OF ok] show ?thesis
      using ok by (simp add: get_api_first [OF True] loader_invariant_def)
  next
    case nok: False
    from load_functions_fail [OF nok] ni tb show ?thesis
      using nok by (simp add: get_api_first [OF True] loader_invariant_def)
  qed
next
  case False
  show ?thesis
  proof (cases "initialized s")
    case ini: True
    with assms(1) have inv: "last_error_message s = []" "library_handle s \<noteq> None"
      "unat (ref_count s) \<le> k" "api_pointers s ''avs_check_version'' \<noteq> None"
      "api_pointers s ''avs_at_exit'' \<noteq> None"
      by (simp_all add: loader_invariant_def)
    show ?thesis
    proof (cases "fst (version_check h (api_pointers s) rm rb)")
      case True
      show ?thesis
        using inv ini word_succ_bounded [OF inv(3) assms(2)]
        by (simp add: get_api_recheck_ok [OF False ini True] loader_invariant_def)
    next
      case nv: False
      show ?thesis
        using inv(2)
        by (auto simp: get_api_recheck_fail [OF False ini nv] loader_invariant_def
              unload_library_def)
    qed
  next
    case nini: False
    with assms(1) show ?thesis
      by (simp add: get_api_not_initialized [OF False nini] loader_invariant_def)
  qed
qed

lemma cleanup_callback_loader_invariant:
  assumes "loader_invariant k s"
  shows "loader_invariant (Suc k) (cleanup_callback s)"
proof (cases "initialized s")
  case ini: True
  with assms have inv: "last_error_message s = []" "library_handle s \<noteq> None"
    "ref_count s \<noteq> 0" "unat (ref_count s) \<le> k" "api_pointers s ''avs_check_version'' \<noteq> None"
    "api_pointers s ''avs_at_exit'' \<noteq> None"
    by (simp_all add: loader_invariant_def)
  show ?thesis
  proof (cases "ref_count s = 1")
    case True
    with inv(2) show ?thesis
      by (auto simp: cleanup_callback_def Let_def unload_library_def loader_invariant_def)
  next
    case False
    from word_pred_bounded [OF inv(3) False inv(4)] inv ini show ?thesis
      using False by (simp add: cleanup_callback_def Let_def loader_invariant_def)
  qed
next
  case nini: False
  with assms have u: "library_handle s = None" "api_pointers s = Map.empty" "g_avs_api s = None"
    by (simp_all add: loader_invariant_def)
  show ?thesis
    using nini u
    by (simp add: cleanup_callback_def Let_def unload_library_def loader_invariant_def)
qed

lemma step_loader_invariant:
  "loader_invariant k s \<Longrightarrow> Suc k < 2 ^ LENGTH('w) \<Longrightarrow>
   loader_invariant (Suc k) (step p known e (s :: 'w::len loader))"
  by (cases e) (simp_all add: get_api_loader_invariant cleanup_callback_loader_invariant)

lemma run_loader_invariant:
  "loader_invariant k s \<Longrightarrow> k + length es < 2 ^ LENGTH('w) \<Longrightarrow>
   loader_invariant (k + length es) (run p known es (s :: 'w::len loader))"
proof (induction es arbitrary: k s)
  case Nil
  then show ?case by simp
next
  case (Cons e es)
  from Cons.prems have "loader_invariant (Suc k) (step p known e s)"
    by (intro step_loader_invariant) simp_all
  from Cons.IH [OF this] Cons.prems(2) show ?case by simp
qed

lemma initial_loader_invariant: "loader_invariant 0 initial"
  by (simp add: loader_invariant_def initial_def)

lemma reachable_loader_invariant:
  "length es < 2 ^ LENGTH('w) \<Longrightarrow>
   loader_invariant (length es) (run p known es (initial :: 'w::len loader))"
  using run_loader_invariant [OF initial_loader_invariant, of es p known] by simp

text \<open>
  Whoever finds the count at 0 finds the loader \<^verbatim>\<open>UNLOADED\<close>; and whenever the loader is
  initialized, the two bootstrap slots that \<^verbatim>\<open>get_api\<close> and \<^verbatim>\<open>load_functions\<close> call
  through are not null.
\<close>

lemma first_caller_finds_unloaded:
  assumes "length es < 2 ^ LENGTH('w)"
    and "ref_count (run p known es (initial :: 'w::len loader)) = 0"
  shows "UNLOADED (run p known es (initial :: 'w loader))"
  using reachable_loader_invariant [OF assms(1), of p known] assms(2)
  by (auto simp: loader_invariant_def UNLOADED_def)

lemma initialized_has_bootstrap:
  assumes "length es < 2 ^ LENGTH('w)"
    and "initialized (run p known es (initial :: 'w::len loader))"
  shows "api_pointers (run p known es (initial :: 'w loader)) ''avs_check_version'' \<noteq> None \<and>
         api_pointers (run p known es (initial :: 'w loader)) ''avs_at_exit'' \<noteq> None \<and>
         library_handle (run p known es (initial :: 'w loader)) \<noteq> None"
  using reachable_loader_invariant [OF assms(1), of p known] assms(2)
  by (simp add: loader_invariant_def)

lemma get_api_success_message:
  assumes "initialized s \<longrightarrow> last_error_message s = []"
    and "fst (get_api p known h rm rb ns s) \<noteq> None"
  shows "last_error_message (snd (get_api p known h rm rb ns s)) = []"
proof (cases "ref_count s = 0")
  case True
  let ?l = "load_functions p known h rm rb ns (s\<lparr> ref_count := 1 \<rparr>)"
  from assms(2) have ok: "fst ?l" by (simp add: get_api_first [OF True] split: if_splits)
  from load_functions_ok [OF ok] show ?thesis
    using ok by (simp add: get_api_first [OF True])
next
  case False
  show ?thesis
  proof (cases "initialized s")
    case ini: True
    show ?thesis
    proof (cases "fst (version_check h (api_pointers s) rm rb)")
      case True
      show ?thesis using assms(1) ini by (simp add: get_api_recheck_ok [OF False ini True])
    next
      case nv: False
      with assms(2) show ?thesis by (simp add: get_api_recheck_fail [OF False ini nv])
    qed
  next
    case nini: False
    with assms(2) show ?thesis by (simp add: get_api_not_initialized [OF False nini])
  qed
qed

text \<open>
  Claim C10. A load sequence that succeeds leaves the stored error message empty. So after
  any successful call of \<^verbatim>\<open>get_api\<close>, made after any history of calls of \<^verbatim>\<open>get_api\<close> and
  of the teardown callback from program start (fewer calls than the reference count can
  count), \<^verbatim>\<open>get_last_error\<close> returns the fixed fallback string, also when an earlier call
  failed and recorded a message.
\<close>

theorem success_clears_error_message:
  "(fst (load_functions p known h req_major req_bugfix names s0) \<longrightarrow>
      last_error_message (snd (load_functions p known h req_major req_bugfix names s0)) = []) \<and>
   (length events < 2 ^ LENGTH('w) \<and>
    fst (get_api p known h req_major req_bugfix names
           (run p known events (initial :: 'w::len loader))) \<noteq> None \<longrightarrow>
      get_last_error
        (snd (get_api p known h req_major req_bugfix names
                (run p known events (initial :: 'w loader))))
        = fallback_error)"
proof -
  have a: "last_error_message (snd (load_functions p known h req_major req_bugfix names s0)) = []"
    if "fst (load_functions p known h req_major req_bugfix names s0)"
    using load_functions_ok [OF that] by simp
  have b: "get_last_error
        (snd (get_api p known h req_major req_bugfix names
                (run p known events (initial :: 'w loader))))
        = fallback_error"
    if len: "length events < 2 ^ LENGTH('w)"
      and ok: "fst (get_api p known h req_major req_bugfix names
           (run p known events (initial :: 'w loader))) \<noteq> None"
  proof -
    from reachable_loader_invariant [OF len, of p known]
    have "initialized (run p known events (initial :: 'w loader)) \<longrightarrow>
               last_error_message (run p known events (initial :: 'w loader)) = []"
      by (simp add: loader_invariant_def)
    from get_api_success_message [OF this ok] show ?thesis
      by (simp add: get_last_error_def)
  qed
  show ?thesis using a b by blast
qed
lemma after_failed_call_fields:
  "last_error_message after_failed_call =
     ''Failed to load avisynth library (avisynth.dll). Is Avisynth+ installed correctly?''"
  "ref_count after_failed_call = 0"
  by (simp_all add: after_failed_call_def run_defs example_defs AVS_LIB_NAME_def)

lemma call_after_failed_call:
  "fst (get_api Windows known_example host_10_0 10 0 [literal_view ''avs_get_frame''] after_failed_call)
     = Some Instance_api_pointers"
  by (simp add: after_failed_call_def run_defs example_defs AVS_LIB_NAME_def)

theorem success_clears_error_message_witness:
  "length [Get_api host_no_library 10 0 [literal_view ''avs_get_frame'']] < 2 ^ LENGTH(64) \<and>
   get_last_error after_failed_call =
     ''Failed to load avisynth library (avisynth.dll). Is Avisynth+ installed correctly?'' \<and>
   fst (get_api Windows known_example host_10_0 10 0 [literal_view ''avs_get_frame''] after_failed_call)
     \<noteq> None \<and>
   fst (load_functions Windows known_example host_10_0 10 0 [literal_view ''avs_get_frame'']
          (after_failed_call \<lparr> ref_count := 1 \<rparr>)) \<and>
   last_error_message
     (snd (load_functions Windows known_example host_10_0 10 0 [literal_view ''avs_get_frame'']
             (after_failed_call \<lparr> ref_count := 1 \<rparr>))) = [] \<and>
   get_last_error
     (snd (get_api Windows known_example host_10_0 10 0 [literal_view ''avs_get_frame''] after_failed_call))
     = ''Unknown Avisynth C API loading error.''"
proof -
  let ?es = "[Get_api host_no_library 10 0 [literal_view ''avs_get_frame'']]"
  note T = success_clears_error_message
    [where 'w = 64 and p = Windows and known = known_example and h = host_10_0
       and req_major = 10 and req_bugfix = 0 and names = "[literal_view ''avs_get_frame'']"
       and events = ?es and ?s0.0 = "after_failed_call \<lparr> ref_count := 1 \<rparr>"]
  have len: "length ?es < 2 ^ LENGTH(64)" by simp
  have m: "get_last_error after_failed_call =
     ''Failed to load avisynth library (avisynth.dll). Is Avisynth+ installed correctly?''"
    by (simp add: get_last_error_def after_failed_call_fields c_str_def)
  have ok: "fst (get_api Windows known_example host_10_0 10 0 [literal_view ''avs_get_frame'']
                  after_failed_call) \<noteq> None"
    by (simp only: call_after_failed_call) simp
  have l: "fst (load_functions Windows known_example host_10_0 10 0 [literal_view ''avs_get_frame'']
          (after_failed_call \<lparr> ref_count := 1 \<rparr>))"
    using ok by (simp add: get_api_first [OF after_failed_call_fields(2)] split: if_splits)
  have e: "last_error_message
     (snd (load_functions Windows known_example host_10_0 10 0 [literal_view ''avs_get_frame'']
             (after_failed_call \<lparr> ref_count := 1 \<rparr>))) = []"
    by (rule T [THEN conjunct1, THEN mp, OF l])
  have f: "get_last_error
     (snd (get_api Windows known_example host_10_0 10 0 [literal_view ''avs_get_frame''] after_failed_call))
     = ''Unknown Avisynth C API loading error.''"
    using T [THEN conjunct2, THEN mp, OF conjI, OF len ok [unfolded after_failed_call_def]]
    by (simp only: after_failed_call_def fallback_error_def)
  show ?thesis by (intro conjI len m ok l e f)
qed

end
